theory Spec2Isabelle
  imports Complex_Main "HOL-Library.AList"
begin

section \<open>JavaScript values\<close>

text \<open>
  A JavaScript number is a double: a real number here, with the operations that round
  (\<open>+\<close>, \<open>-\<close> and \<open>*\<close> on player data) left open as parameters, see
  \<open>double_arithmetic\<close> below.  A property of a JSON object is an option: \<open>None\<close> is an
  absent property (reading it gives \<open>undefined\<close>).  A property that is present carries
  the type the Dynmap feed gives it; the timestamp of a record may also be a string that
  is not a numeral.
\<close>

type_synonym number = real

datatype error = TypeError | RangeError string

text \<open>Truthiness: \<open>undefined\<close>, \<open>''\<close>, \<open>0\<close> and \<open>false\<close> are falsy.\<close>

definition truthy_str :: "string option \<Rightarrow> bool" where
  "truthy_str v = (case v of None \<Rightarrow> False | Some s \<Rightarrow> s \<noteq> [])"

definition truthy_num :: "number option \<Rightarrow> bool" where
  "truthy_num v = (case v of None \<Rightarrow> False | Some n \<Rightarrow> n \<noteq> 0)"

definition truthy_bool :: "bool option \<Rightarrow> bool" where
  "truthy_bool v = (case v of None \<Rightarrow> False | Some b \<Rightarrow> b)"

text \<open>A \<open>Date\<close> is an object, and every object is truthy, also \<open>new Date(0)\<close>.\<close>

definition truthy_date :: "number \<Rightarrow> bool" where
  "truthy_date d = True"

text \<open>\<open>v || d\<close> at each type, and \<open>v || undefined\<close>.\<close>

definition str_or :: "string option \<Rightarrow> string \<Rightarrow> string" where
  "str_or v d = (if truthy_str v then (case v of Some s \<Rightarrow> s | None \<Rightarrow> d) else d)"

definition num_or :: "number option \<Rightarrow> number \<Rightarrow> number" where
  "num_or v d = (if truthy_num v then (case v of Some n \<Rightarrow> n | None \<Rightarrow> d) else d)"

definition bool_or :: "bool option \<Rightarrow> bool \<Rightarrow> bool" where
  "bool_or v d = (if truthy_bool v then True else d)"

definition str_or_undefined :: "string option \<Rightarrow> string option" where
  "str_or_undefined v = (if truthy_str v then v else None)"

definition bool_or_undefined :: "bool option \<Rightarrow> bool option" where
  "bool_or_undefined v = (if truthy_bool v then v else None)"

text \<open>
  The value of a \<open>timestamp\<close> property: a number, or a string that does not read as a
  number, such as \<open>"x"\<close>.  Such a string is not empty (the empty string reads as \<open>0\<close>),
  so it is truthy, and its conversion to a number is \<open>NaN\<close> (\<open>None\<close> below).  A string
  that reads as a number is not modelled.
\<close>

datatype timestamp = TNumber number | NonNumeric string

definition truthy_ts :: "timestamp option \<Rightarrow> bool" where
  "truthy_ts v =
     (case v of None \<Rightarrow> False
      | Some (TNumber n) \<Rightarrow> n \<noteq> 0
      | Some (NonNumeric s) \<Rightarrow> s \<noteq> [])"

definition ts_or_undefined :: "timestamp option \<Rightarrow> timestamp option" where
  "ts_or_undefined v = (if truthy_ts v then v else None)"

definition to_number :: "timestamp option \<Rightarrow> number option" where
  "to_number v =
     (case v of None \<Rightarrow> None
      | Some (TNumber n) \<Rightarrow> Some n
      | Some (NonNumeric s) \<Rightarrow> None)"

text \<open>
  \<open>v < d\<close> for a property \<open>v\<close> and a \<open>Date\<close> \<open>d\<close> (given by its value in
  milliseconds): both sides are converted to numbers, \<open>undefined\<close> to \<open>NaN\<close>, and every
  comparison with \<open>NaN\<close> is false.
\<close>

definition ts_lt :: "timestamp option \<Rightarrow> number \<Rightarrow> bool" where
  "ts_lt v d = (case to_number v of None \<Rightarrow> False | Some n \<Rightarrow> n < d)"

text \<open>
  Sums, differences and products of doubles are the exact results rounded to a double.
  The rounding is left open: the three operations are parameters of the model, so a
  statement about it holds for the arithmetic of doubles in particular.
\<close>

record double_arithmetic =
  plus_d :: "number \<Rightarrow> number \<Rightarrow> number"
  minus_d :: "number \<Rightarrow> number \<Rightarrow> number"
  times_d :: "number \<Rightarrow> number \<Rightarrow> number"

definition startsWith :: "string \<Rightarrow> string \<Rightarrow> bool" where
  "startsWith s p = (take (length p) s = p)"

definition endsWith :: "string \<Rightarrow> string \<Rightarrow> bool" where
  "endsWith s p = (length p \<le> length s \<and> drop (length s - length p) s = p)"

text \<open>\<open>s.split(c)\<close> for a separator of one character.\<close>

fun split :: "char \<Rightarrow> string \<Rightarrow> string list" where
  "split c [] = [[]]"
| "split c (x # xs) =
     (if x = c then [] # split c xs
      else (case split c xs of [] \<Rightarrow> [[x]] | w # ws \<Rightarrow> (x # w) # ws))"

text \<open>
  A JavaScript \<open>Map\<close> keeps its entries in insertion order with distinct keys: an
  association list, with \<open>map_of\<close> for \<open>get\<close>, \<open>AList.update\<close> for \<open>set\<close> (in place
  when the key is there, at the end otherwise) and \<open>AList.delete\<close> for \<open>delete\<close>.
\<close>

type_synonym ('k, 'v) js_map = "('k \<times> 'v) list"

definition has :: "('k, 'v) js_map \<Rightarrow> 'k \<Rightarrow> bool" where
  "has m k = (map_of m k \<noteq> None)"

section \<open>Update records of the feed\<close>

text \<open>An \<open>x\<close>, \<open>y\<close> or \<open>z\<close> is a number for markers and circles, an array for areas and lines.\<close>

datatype coord = CNum number | CArr "number list"

definition coord_or :: "coord option \<Rightarrow> coord \<Rightarrow> coord" where
  "coord_or v d =
     (case v of None \<Rightarrow> d
      | Some (CNum n) \<Rightarrow> if n \<noteq> 0 then CNum n else d
      | Some (CArr a) \<Rightarrow> CArr a)"

record entry =
  e_type :: "string option"
  e_timestamp :: "timestamp option"
  e_id :: "string option"
  e_msg :: "string option"
  e_set :: "string option"
  e_ctype :: "string option"
  e_message :: "string option"
  e_source :: "string option"
  e_account :: "string option"
  e_playerName :: "string option"
  e_channel :: "string option"
  e_name :: "string option"
  e_label :: "string option"
  e_hide :: "bool option"
  e_layerprio :: "number option"
  e_showlabels :: "bool option"
  e_minzoom :: "number option"
  e_maxzoom :: "number option"
  e_x :: "coord option"
  e_y :: "coord option"
  e_z :: "coord option"
  e_dim :: "string option"
  e_icon :: "string option"
  e_markup :: "bool option"
  e_desc :: "string option"
  e_color :: "string option"
  e_opacity :: "number option"
  e_weight :: "number option"
  e_fillcolor :: "string option"
  e_fillopacity :: "number option"
  e_ybottom :: "number option"
  e_ytop :: "number option"
  e_xr :: "number option"
  e_zr :: "number option"

text \<open>The object \<open>{}\<close>; concrete records are written as updates of it.\<close>

definition empty_entry :: entry where
  "empty_entry = \<lparr>e_type = None, e_timestamp = None, e_id = None, e_msg = None,
     e_set = None, e_ctype = None, e_message = None, e_source = None, e_account = None,
     e_playerName = None, e_channel = None, e_name = None, e_label = None, e_hide = None,
     e_layerprio = None, e_showlabels = None, e_minzoom = None, e_maxzoom = None,
     e_x = None, e_y = None, e_z = None, e_dim = None, e_icon = None, e_markup = None,
     e_desc = None, e_color = None, e_opacity = None, e_weight = None, e_fillcolor = None,
     e_fillopacity = None, e_ybottom = None, e_ytop = None, e_xr = None, e_zr = None\<rparr>"

section \<open>Decoded payloads\<close>

text \<open>\<open>typeof v !== 'undefined' && v > -1 ? v : undefined\<close>\<close>

definition zoom_bound :: "number option \<Rightarrow> number option" where
  "zoom_bound v = (case v of None \<Rightarrow> None | Some n \<Rightarrow> if n > -1 then Some n else None)"

record DynmapMarkerSetPayload =
  p_id :: string
  p_label :: string
  p_hidden :: bool
  p_priority :: number
  p_showLabels :: "bool option"
  p_minZoom :: "number option"
  p_maxZoom :: "number option"

definition buildMarkerSet :: "string \<Rightarrow> entry \<Rightarrow> DynmapMarkerSetPayload" where
  "buildMarkerSet id' data = \<lparr>
     p_id = id',
     p_label = str_or (e_label data) ''Unnamed set'',
     p_hidden = bool_or (e_hide data) False,
     p_priority = num_or (e_layerprio data) 0,
     p_showLabels = bool_or_undefined (e_showlabels data),
     p_minZoom = zoom_bound (e_minzoom data),
     p_maxZoom = zoom_bound (e_maxzoom data)\<rparr>"

record Location =
  loc_x :: coord
  loc_y :: coord
  loc_z :: coord

datatype dimensions = DimStrings "string list" | DimNumbers "number list"

record DynmapMarker =
  m_label :: string
  m_location :: Location
  m_dimensions :: dimensions
  m_icon :: string
  m_isHTML :: bool
  m_minZoom :: "number option"
  m_maxZoom :: "number option"
  m_popupContent :: "string option"

definition buildMarker :: "entry \<Rightarrow> DynmapMarker" where
  "buildMarker marker = \<lparr>
     m_label = str_or (e_label marker) [],
     m_location = \<lparr>
       loc_x = coord_or (e_x marker) (CNum 0),
       loc_y = coord_or (e_y marker) (CNum 0),
       loc_z = coord_or (e_z marker) (CNum 0)\<rparr>,
     m_dimensions =
       (if truthy_str (e_dim marker)
        then (case e_dim marker of Some d \<Rightarrow> DimStrings (split (CHR ''x'') d)
              | None \<Rightarrow> DimNumbers [16, 16])
        else DimNumbers [16, 16]),
     m_icon = str_or (e_icon marker) ''default'',
     m_isHTML = bool_or (e_markup marker) False,
     m_minZoom = zoom_bound (e_minzoom marker),
     m_maxZoom = zoom_bound (e_maxzoom marker),
     m_popupContent = str_or_undefined (e_desc marker)\<rparr>"

record LineStyle =
  st_color :: string
  st_opacity :: number
  st_weight :: number

record FillStyle = LineStyle +
  st_fillColor :: string
  st_fillOpacity :: number

record DynmapArea =
  a_style :: FillStyle
  a_label :: string
  a_isHTML :: bool
  a_x :: coord
  a_y :: "number list"
  a_z :: coord
  a_minZoom :: "number option"
  a_maxZoom :: "number option"
  a_popupContent :: "string option"

definition buildArea :: "entry \<Rightarrow> DynmapArea" where
  "buildArea area = \<lparr>
     a_style = \<lparr>
       st_color = str_or (e_color area) ''#ff0000'',
       st_opacity = num_or (e_opacity area) 1,
       st_weight = num_or (e_weight area) 1,
       st_fillColor = str_or (e_fillcolor area) ''#ff0000'',
       st_fillOpacity = num_or (e_fillopacity area) 0\<rparr>,
     a_label = str_or (e_label area) [],
     a_isHTML = bool_or (e_markup area) False,
     a_x = coord_or (e_x area) (CArr [0, 0]),
     a_y = [num_or (e_ybottom area) 0, num_or (e_ytop area) 0],
     a_z = coord_or (e_z area) (CArr [0, 0]),
     a_minZoom = zoom_bound (e_minzoom area),
     a_maxZoom = zoom_bound (e_maxzoom area),
     a_popupContent = str_or_undefined (e_desc area)\<rparr>"

record DynmapLine =
  l_x :: coord
  l_y :: coord
  l_z :: coord
  l_style :: LineStyle
  l_label :: string
  l_isHTML :: bool
  l_minZoom :: "number option"
  l_maxZoom :: "number option"
  l_popupContent :: "string option"

definition buildLine :: "entry \<Rightarrow> DynmapLine" where
  "buildLine line = \<lparr>
     l_x = coord_or (e_x line) (CArr [0, 0]),
     l_y = coord_or (e_y line) (CArr [0, 0]),
     l_z = coord_or (e_z line) (CArr [0, 0]),
     l_style = \<lparr>
       st_color = str_or (e_color line) ''#ff0000'',
       st_opacity = num_or (e_opacity line) 1,
       st_weight = num_or (e_weight line) 1\<rparr>,
     l_label = str_or (e_label line) [],
     l_isHTML = bool_or (e_markup line) False,
     l_minZoom = zoom_bound (e_minzoom line),
     l_maxZoom = zoom_bound (e_maxzoom line),
     l_popupContent = str_or_undefined (e_desc line)\<rparr>"

record DynmapCircle =
  c_location :: Location
  c_radius :: "number list"
  c_style :: FillStyle
  c_label :: string
  c_isHTML :: bool
  c_minZoom :: "number option"
  c_maxZoom :: "number option"
  c_popupContent :: "string option"

definition buildCircle :: "entry \<Rightarrow> DynmapCircle" where
  "buildCircle circle = \<lparr>
     c_location = \<lparr>
       loc_x = coord_or (e_x circle) (CNum 0),
       loc_y = coord_or (e_y circle) (CNum 0),
       loc_z = coord_or (e_z circle) (CNum 0)\<rparr>,
     c_radius = [num_or (e_xr circle) 0, num_or (e_zr circle) 0],
     c_style = \<lparr>
       st_color = str_or (e_color circle) ''#ff0000'',
       st_opacity = num_or (e_opacity circle) 1,
       st_weight = num_or (e_weight circle) 1,
       st_fillColor = str_or (e_fillcolor circle) ''#ff0000'',
       st_fillOpacity = num_or (e_fillopacity circle) 0\<rparr>,
     c_label = str_or (e_label circle) [],
     c_isHTML = bool_or (e_markup circle) False,
     c_minZoom = zoom_bound (e_minzoom circle),
     c_maxZoom = zoom_bound (e_maxzoom circle),
     c_popupContent = str_or_undefined (e_desc circle)\<rparr>"

section \<open>The update classifier\<close>

record 'a DynmapUpdate =
  u_id :: string
  u_removed :: bool
  u_payload :: "'a option"

record DynmapMarkerSetUpdates =
  markerUpdates :: "DynmapMarker DynmapUpdate list"
  areaUpdates :: "DynmapArea DynmapUpdate list"
  circleUpdates :: "DynmapCircle DynmapUpdate list"
  lineUpdates :: "DynmapLine DynmapUpdate list"
  removed :: "bool option"
  payload :: "DynmapMarkerSetPayload option"

record DynmapTileUpdate =
  t_name :: string
  t_timestamp :: "timestamp option"

record DynmapChat =
  ch_type :: string
  ch_source :: "string option"
  ch_playerAccount :: "string option"
  ch_playerName :: "string option"
  ch_message :: "string option"
  ch_timestamp :: "timestamp option"
  ch_channel :: "string option"

record DynmapUpdates =
  up_markerSets :: "(string, DynmapMarkerSetUpdates) js_map"
  up_tiles :: "DynmapTileUpdate list"
  up_chat :: "DynmapChat list"

record Dropped =
  stale :: nat
  noSet :: nat
  noId :: nat
  unknownType :: nat
  unknownCType :: nat
  incomplete :: nat
  notImplemented :: nat

text \<open>
  The local variables of \<open>buildUpdates\<close>: the result under construction, the drop counters
  and the count of accepted records (both printed by \<open>console.debug\<close> at the end).
\<close>

record Classified =
  updates :: DynmapUpdates
  dropped :: Dropped
  accepted :: nat

definition initial :: Classified where
  "initial = \<lparr>
     updates = \<lparr>up_markerSets = [], up_tiles = [], up_chat = []\<rparr>,
     dropped = \<lparr>stale = 0, noSet = 0, noId = 0, unknownType = 0, unknownCType = 0,
       incomplete = 0, notImplemented = 0\<rparr>,
     accepted = 0\<rparr>"

definition empty_updates :: DynmapMarkerSetUpdates where
  "empty_updates = \<lparr>markerUpdates = [], areaUpdates = [], circleUpdates = [],
     lineUpdates = [], removed = Some False, payload = None\<rparr>"

text \<open>The body of \<open>case 'component'\<close> after the checks, for the set \<open>set'\<close>.\<close>

definition component_update :: "string \<Rightarrow> string \<Rightarrow> string \<Rightarrow> entry \<Rightarrow>
    DynmapMarkerSetUpdates \<Rightarrow> DynmapMarkerSetUpdates" where
  "component_update set' id' msg entry' markerSetUpdates =
     (let del = endsWith msg ''deleted'' in
      if startsWith msg ''set'' then
        markerSetUpdates\<lparr>removed := Some del,
          payload := (if del then None else Some (buildMarkerSet set' entry'))\<rparr>
      else if startsWith msg ''marker'' then
        markerSetUpdates\<lparr>markerUpdates := markerUpdates markerSetUpdates @
          [\<lparr>u_id = id', u_removed = del,
            u_payload = (if del then None else Some (buildMarker entry'))\<rparr>]\<rparr>
      else if startsWith msg ''area'' then
        markerSetUpdates\<lparr>areaUpdates := areaUpdates markerSetUpdates @
          [\<lparr>u_id = id', u_removed = del,
            u_payload = (if del then None else Some (buildArea entry'))\<rparr>]\<rparr>
      else if startsWith msg ''circle'' then
        markerSetUpdates\<lparr>circleUpdates := circleUpdates markerSetUpdates @
          [\<lparr>u_id = id', u_removed = del,
            u_payload = (if del then None else Some (buildCircle entry'))\<rparr>]\<rparr>
      else if startsWith msg ''line'' then
        markerSetUpdates\<lparr>lineUpdates := lineUpdates markerSetUpdates @
          [\<lparr>u_id = id', u_removed = del,
            u_payload = (if del then None else Some (buildLine entry'))\<rparr>]\<rparr>
      else markerSetUpdates)"

definition drop_stale :: "Classified \<Rightarrow> Classified" where
  "drop_stale c = c\<lparr>dropped := (dropped c)\<lparr>stale := stale (dropped c) + 1\<rparr>\<rparr>"

definition drop_noSet :: "Classified \<Rightarrow> Classified" where
  "drop_noSet c = c\<lparr>dropped := (dropped c)\<lparr>noSet := noSet (dropped c) + 1\<rparr>\<rparr>"

definition drop_noId :: "Classified \<Rightarrow> Classified" where
  "drop_noId c = c\<lparr>dropped := (dropped c)\<lparr>noId := noId (dropped c) + 1\<rparr>\<rparr>"

definition drop_unknownType :: "Classified \<Rightarrow> Classified" where
  "drop_unknownType c =
     c\<lparr>dropped := (dropped c)\<lparr>unknownType := unknownType (dropped c) + 1\<rparr>\<rparr>"

definition drop_unknownCType :: "Classified \<Rightarrow> Classified" where
  "drop_unknownCType c =
     c\<lparr>dropped := (dropped c)\<lparr>unknownCType := unknownCType (dropped c) + 1\<rparr>\<rparr>"

definition drop_incomplete :: "Classified \<Rightarrow> Classified" where
  "drop_incomplete c =
     c\<lparr>dropped := (dropped c)\<lparr>incomplete := incomplete (dropped c) + 1\<rparr>\<rparr>"

definition drop_notImplemented :: "Classified \<Rightarrow> Classified" where
  "drop_notImplemented c =
     c\<lparr>dropped := (dropped c)\<lparr>notImplemented := notImplemented (dropped c) + 1\<rparr>\<rparr>"

text \<open>
  One iteration of the loop of \<open>buildUpdates\<close>, for the watermark \<open>lastUpdate\<close> (the
  \<open>Date\<close> \<open>state.updateTimestamp\<close>, in milliseconds): one definition for each \<open>case\<close>
  of the \<open>switch\<close>.  \<open>entry.msg.startsWith\<close> throws a \<open>TypeError\<close> when the record has
  no \<open>msg\<close>.
\<close>

definition classify_component :: "number \<Rightarrow> Classified \<Rightarrow> entry \<Rightarrow> error + Classified" where
  "classify_component lastUpdate c entry' =
    (if truthy_date lastUpdate \<and> ts_lt (e_timestamp entry') lastUpdate then
       Inr (drop_stale c)
     else if \<not> truthy_str (e_id entry') then Inr (drop_noId c)
     else
       (case e_msg entry' of
          None \<Rightarrow> Inl TypeError
        | Some msg \<Rightarrow>
           (let set' = (if startsWith msg ''set'' then e_id entry' else e_set entry') in
            if \<not> truthy_str set' then Inr (drop_noSet c)
            else if e_ctype entry' \<noteq> Some ''markers'' then Inr (drop_unknownCType c)
            else
              (let s = str_or set' [];
                   sets = up_markerSets (updates c);
                   sets1 = (if \<not> has sets s then AList.update s empty_updates sets
                            else sets);
                   sets2 = AList.map_entry s
                     (component_update s (str_or (e_id entry') []) msg entry') sets1
               in Inr (c\<lparr>updates := (updates c)\<lparr>up_markerSets := sets2\<rparr>,
                        accepted := accepted c + 1\<rparr>)))))"

definition classify_chat :: "number \<Rightarrow> Classified \<Rightarrow> entry \<Rightarrow> error + Classified" where
  "classify_chat lastUpdate c entry' =
    (if \<not> truthy_str (e_message entry') \<or> \<not> truthy_ts (e_timestamp entry') then
       Inr (drop_incomplete c)
     else if ts_lt (e_timestamp entry') lastUpdate then Inr (drop_stale c)
     else if e_source entry' \<noteq> Some ''player'' \<and> e_source entry' \<noteq> Some ''web'' then
       Inr (drop_notImplemented c)
     else
       Inr (c\<lparr>updates := (updates c)\<lparr>up_chat := up_chat (updates c) @ [\<lparr>
         ch_type = ''chat'',
         ch_source = str_or_undefined (e_source entry'),
         ch_playerAccount = str_or_undefined (e_account entry'),
         ch_playerName = str_or_undefined (e_playerName entry'),
         ch_message = Some (str_or (e_message entry') []),
         ch_timestamp = e_timestamp entry',
         ch_channel = str_or_undefined (e_channel entry')\<rparr>]\<rparr>\<rparr>))"

definition classify_playerjoin :: "number \<Rightarrow> Classified \<Rightarrow> entry \<Rightarrow> error + Classified" where
  "classify_playerjoin lastUpdate c entry' =
    (if \<not> truthy_str (e_account entry') \<or> \<not> truthy_ts (e_timestamp entry') then
       Inr (drop_incomplete c)
     else if ts_lt (e_timestamp entry') lastUpdate then Inr (drop_stale c)
     else
       Inr (c\<lparr>updates := (updates c)\<lparr>up_chat := up_chat (updates c) @ [\<lparr>
         ch_type = ''playerjoin'',
         ch_source = None,
         ch_playerAccount = e_account entry',
         ch_playerName = Some (str_or (e_playerName entry') []),
         ch_message = None,
         ch_timestamp = ts_or_undefined (e_timestamp entry'),
         ch_channel = None\<rparr>]\<rparr>\<rparr>))"

definition classify_playerquit :: "number \<Rightarrow> Classified \<Rightarrow> entry \<Rightarrow> error + Classified" where
  "classify_playerquit lastUpdate c entry' =
    (if \<not> truthy_str (e_account entry') \<or> \<not> truthy_ts (e_timestamp entry') then
       Inr (drop_incomplete c)
     else if ts_lt (e_timestamp entry') lastUpdate then Inr (drop_stale c)
     else
       Inr (c\<lparr>updates := (updates c)\<lparr>up_chat := up_chat (updates c) @ [\<lparr>
         ch_type = ''playerleave'',
         ch_source = None,
         ch_playerAccount = e_account entry',
         ch_playerName = Some (str_or (e_playerName entry') []),
         ch_message = None,
         ch_timestamp = ts_or_undefined (e_timestamp entry'),
         ch_channel = None\<rparr>]\<rparr>\<rparr>))"

definition classify_tile :: "number \<Rightarrow> Classified \<Rightarrow> entry \<Rightarrow> error + Classified" where
  "classify_tile lastUpdate c entry' =
    (if \<not> truthy_str (e_name entry') \<or> \<not> truthy_ts (e_timestamp entry') then
       Inr (drop_incomplete c)
     else if truthy_date lastUpdate \<and> ts_lt (e_timestamp entry') lastUpdate then
       Inr (drop_stale c)
     else
       Inr (c\<lparr>updates := (updates c)\<lparr>up_tiles := up_tiles (updates c) @ [\<lparr>
         t_name = str_or (e_name entry') [],
         t_timestamp = e_timestamp entry'\<rparr>]\<rparr>,
         accepted := accepted c + 1\<rparr>))"

definition classify :: "number \<Rightarrow> Classified \<Rightarrow> entry \<Rightarrow> error + Classified" where
  "classify lastUpdate c entry' =
    (if e_type entry' = Some ''component'' then classify_component lastUpdate c entry'
     else if e_type entry' = Some ''chat'' then classify_chat lastUpdate c entry'
     else if e_type entry' = Some ''playerjoin'' then classify_playerjoin lastUpdate c entry'
     else if e_type entry' = Some ''playerquit'' then classify_playerquit lastUpdate c entry'
     else if e_type entry' = Some ''tile'' then classify_tile lastUpdate c entry'
     else Inr (drop_unknownType c))"

text \<open>The loop: the first exception ends it.\<close>

fun classify_all :: "number \<Rightarrow> Classified \<Rightarrow> entry list \<Rightarrow> error + Classified" where
  "classify_all lastUpdate c [] = Inr c"
| "classify_all lastUpdate c (entry' # data) =
     (case classify lastUpdate c entry' of
        Inl e \<Rightarrow> Inl e
      | Inr c' \<Rightarrow> classify_all lastUpdate c' data)"

text \<open>
  \<open>Array.prototype.sort\<close> with a comparator: a stable sort (ECMAScript 2019), here by
  insertion.  The result of the comparator is a number or \<open>NaN\<close> (\<open>None\<close>), and
  \<open>NaN\<close> counts as \<open>0\<close>.  For a comparator that is not a consistent order the standard
  leaves the order of the result to the implementation; here it is the one that insertion
  gives.
\<close>

definition compare_value :: "number option \<Rightarrow> number" where
  "compare_value v = (case v of None \<Rightarrow> 0 | Some d \<Rightarrow> d)"

fun js_insert :: "('a \<Rightarrow> 'a \<Rightarrow> number option) \<Rightarrow> 'a \<Rightarrow> 'a list \<Rightarrow> 'a list" where
  "js_insert cmp x [] = [x]"
| "js_insert cmp x (y # ys) =
     (if compare_value (cmp x y) \<le> 0 then x # y # ys else y # js_insert cmp x ys)"

fun js_sort :: "('a \<Rightarrow> 'a \<Rightarrow> number option) \<Rightarrow> 'a list \<Rightarrow> 'a list" where
  "js_sort cmp [] = []"
| "js_sort cmp (x # xs) = js_insert cmp x (js_sort cmp xs)"

text \<open>
  \<open>(one, two) => two.timestamp - one.timestamp\<close>: both timestamps are converted to
  numbers, and the difference is \<open>NaN\<close> when one of them is.  The sort uses the sign of the
  difference only, and the difference of two doubles, rounded, has the sign of the exact
  one.
\<close>

definition chat_order :: "DynmapChat \<Rightarrow> DynmapChat \<Rightarrow> number option" where
  "chat_order one two =
     (case (to_number (ch_timestamp two), to_number (ch_timestamp one)) of
        (Some t2, Some t1) \<Rightarrow> Some (t2 - t1)
      | _ \<Rightarrow> None)"

definition buildUpdates :: "number \<Rightarrow> entry list \<Rightarrow> error + Classified" where
  "buildUpdates lastUpdate data =
     (case classify_all lastUpdate initial data of
        Inl e \<Rightarrow> Inl e
      | Inr c \<Rightarrow>
          Inr (c\<lparr>updates := (updates c)\<lparr>up_chat := js_sort chat_order (up_chat (updates c))\<rparr>\<rparr>))"

section \<open>Players of an update response\<close>

text \<open>
  The \<open>world\<close> property of a location is optional: \<open>None\<close> is a location without the
  property, \<open>Some None\<close> one whose \<open>world\<close> is \<open>undefined\<close>.  The field \<open>sort\<close> of a
  player is \<open>sort_weight\<close> here, and \<open>hidden\<close> is \<open>None\<close> for an object without the
  property.
\<close>

record PlayerLocation =
  pl_x :: number
  pl_y :: number
  pl_z :: number
  pl_world :: "string option option"

record DynmapPlayer =
  account :: string
  health :: number
  armor :: number
  name :: string
  sort_weight :: number
  hidden :: "bool option"
  location :: PlayerLocation

record response_player =
  r_account :: "string option"
  r_health :: "number option"
  r_armor :: "number option"
  r_name :: "string option"
  r_sort :: "number option"
  r_world :: "string option"
  r_x :: "number option"
  r_y :: "number option"
  r_z :: "number option"

text \<open>The body of \<open>(response.players || []).forEach\<close>; \<open>isNaN(undefined)\<close> is true.\<close>

definition response_to_player :: "double_arithmetic \<Rightarrow> response_player \<Rightarrow> DynmapPlayer" where
  "response_to_player ar player =
     (let world = (if truthy_str (r_world player)
                      \<and> r_world player \<noteq> Some ''-some-other-bogus-world-''
                   then r_world player else None)
      in \<lparr>account = str_or (r_account player) [],
          health = num_or (r_health player) 0,
          armor = num_or (r_armor player) 0,
          name = str_or (r_name player) [],
          sort_weight = num_or (r_sort player) 0,
          hidden = Some (\<not> truthy_str world),
          location = \<lparr>
            pl_x = (case r_x player of Some x \<Rightarrow> plus_d ar x 0.5 | None \<Rightarrow> 0),
            pl_y = (case r_y player of Some y \<Rightarrow> y | None \<Rightarrow> 0),
            pl_z = (case r_z player of Some z \<Rightarrow> plus_d ar z 0.5 | None \<Rightarrow> 0),
            pl_world = Some world\<rparr>\<rparr>)"

text \<open>
  \<open>Math.round\<close> is exact on doubles: the integer nearest to its argument, the larger of
  the two at a tie.  Then the decimal digits of a loop counter (\<open>"VIDEO GAMES " + i\<close>).
\<close>

definition Math_round :: "number \<Rightarrow> number" where
  "Math_round v = of_int \<lfloor>v + 1 / 2\<rfloor>"

fun toString :: "nat \<Rightarrow> string" where
  "toString n =
     (if n < 10 then [''0123456789'' ! n]
      else toString (n div 10) @ [''0123456789'' ! (n mod 10)])"

declare toString.simps [simp del]

text \<open>
  The fake player of iteration \<open>i\<close>.  \<open>Math.random\<close> is called four times in each
  iteration; \<open>random k\<close> is the result of call number \<open>k\<close>.  The object has no \<open>hidden\<close>
  property.
\<close>

definition fake_player :: "double_arithmetic \<Rightarrow> (nat \<Rightarrow> number) \<Rightarrow> nat \<Rightarrow> DynmapPlayer" where
  "fake_player ar random i = \<lparr>
     account = ''VIDEO GAMES '' @ toString i,
     health = Math_round (times_d ar (random (4 * i)) 10),
     armor = Math_round (times_d ar (random (4 * i + 1)) 10),
     name = ''VIDEO GAMES '' @ toString i,
     sort_weight = 0,
     hidden = None,
     location = \<lparr>
       pl_x = minus_d ar (Math_round (times_d ar (random (4 * i + 2)) 1000)) 500,
       pl_y = 64,
       pl_z = minus_d ar (Math_round (times_d ar (random (4 * i + 3)) 1000)) 500,
       pl_world = Some (Some ''world'')\<rparr>\<rparr>"

text \<open>
  \<open>for(let i = 0; i < 150; i++) players.add(...)\<close>.  A \<open>Set\<close> of objects is a list in
  insertion order: every object literal is a new element.
\<close>

function fake_players :: "double_arithmetic \<Rightarrow> (nat \<Rightarrow> number) \<Rightarrow> nat \<Rightarrow>
    DynmapPlayer list \<Rightarrow> DynmapPlayer list" where
  "fake_players ar random i players =
     (if i < 150 then fake_players ar random (i + 1) (players @ [fake_player ar random i])
      else players)"
  by pat_completeness auto
termination
  by (relation "measure (\<lambda>(ar, random, i, players). 150 - i)") auto

declare fake_players.simps [simp del]

text \<open>The \<open>players\<close> of the result of \<open>getUpdate\<close>, for the \<open>players\<close> of the response.\<close>

definition getUpdate_players :: "double_arithmetic \<Rightarrow> (nat \<Rightarrow> number) \<Rightarrow>
    response_player list \<Rightarrow> DynmapPlayer list" where
  "getUpdate_players ar random response_players =
     fake_players ar random 0 (map (response_to_player ar) response_players)"

section \<open>The store\<close>

record DynmapMarkerSet =
  s_id :: string
  s_label :: string
  s_hidden :: bool
  s_priority :: number
  s_showLabels :: "bool option"
  s_minZoom :: "number option"
  s_maxZoom :: "number option"
  markers :: "(string, DynmapMarker option) js_map"
  areas :: "(string, DynmapArea option) js_map"
  circles :: "(string, DynmapCircle option) js_map"
  lines :: "(string, DynmapLine option) js_map"

text \<open>
  A world and a map are objects that the store compares by reference: each carries its
  address.  Of the store's state, the fields that the mutations below read or write:
  \<open>maps'\<close> is \<open>state.maps\<close>, \<open>chat_messages\<close> is \<open>state.chat.messages\<close>, and
  \<open>console\<close> collects the lines of \<open>console.warn\<close>.  A mutation that can throw returns
  \<open>Inl\<close> the error.
\<close>

record DynmapWorldMap =
  wm_address :: nat
  wm_name :: string

record DynmapWorld =
  w_address :: nat
  w_name :: string
  w_maps :: "(string, DynmapWorldMap) js_map"

record State =
  worlds :: "(string, DynmapWorld) js_map"
  maps' :: "(string, DynmapWorldMap) js_map"
  players :: "(string, DynmapPlayer) js_map"
  markerSets :: "(string, DynmapMarkerSet) js_map"
  chat_messages :: "DynmapChat list"
  pendingSetUpdates :: "(string, DynmapMarkerSetUpdates) js_map"
  pendingTileUpdates :: "DynmapTileUpdate list"
  currentWorld :: "DynmapWorld option"
  currentMap :: "DynmapWorldMap option"
  updateRequestId :: nat
  updateTimestamp :: number
  console :: "string list"

text \<open>The initial state of \<open>state.ts\<close>, created at the time \<open>now\<close>.\<close>

definition state :: "number \<Rightarrow> State" where
  "state now = \<lparr>worlds = [], maps' = [], players = [], markerSets = [],
     chat_messages = [], pendingSetUpdates = [], pendingTileUpdates = [],
     currentWorld = None, currentMap = None, updateRequestId = 0,
     updateTimestamp = now, console = []\<rparr>"

definition empty_pending :: DynmapMarkerSetUpdates where
  "empty_pending = \<lparr>markerUpdates = [], areaUpdates = [], circleUpdates = [],
     lineUpdates = [], removed = None, payload = None\<rparr>"

text \<open>\<open>SET_WORLDS\<close>: both maps are cleared and filled again from the list of worlds.\<close>

definition add_world_maps :: "DynmapWorld \<Rightarrow> (string, DynmapWorldMap) js_map \<Rightarrow>
    (string, DynmapWorldMap) js_map" where
  "add_world_maps world ms =
     foldl (\<lambda>ms' entry'. AList.update (w_name world @ ''_'' @ wm_name (snd entry'))
        (snd entry') ms') ms (w_maps world)"

definition set_world :: "State \<Rightarrow> DynmapWorld \<Rightarrow> State" where
  "set_world st world =
     st\<lparr>worlds := AList.update (w_name world) world (worlds st),
        maps' := add_world_maps world (maps' st)\<rparr>"

definition SET_WORLDS :: "State \<Rightarrow> DynmapWorld list \<Rightarrow> State" where
  "SET_WORLDS st new_worlds =
     foldl set_world
       (st\<lparr>worlds := [], maps' := [], currentMap := None, currentWorld := None\<rparr>)
       new_worlds"

definition SET_MARKER_SETS :: "State \<Rightarrow> (string, DynmapMarkerSet) js_map \<Rightarrow> State" where
  "SET_MARKER_SETS st sets =
     st\<lparr>markerSets := sets,
        pendingSetUpdates :=
          foldl (\<lambda>p entry'. AList.update (fst entry') empty_pending p) [] sets\<rparr>"

definition ADD_WORLD :: "State \<Rightarrow> DynmapWorld \<Rightarrow> State" where
  "ADD_WORLD st world = st\<lparr>worlds := AList.update (w_name world) world (worlds st)\<rparr>"

definition SET_UPDATE_TIMESTAMP :: "State \<Rightarrow> number \<Rightarrow> State" where
  "SET_UPDATE_TIMESTAMP st timestamp = st\<lparr>updateTimestamp := timestamp\<rparr>"

text \<open>The loops over the updates of one category: \<open>delete\<close> or \<open>set\<close> in arrival order.\<close>

fun apply_updates :: "'a DynmapUpdate list \<Rightarrow> (string, 'a option) js_map \<Rightarrow>
    (string, 'a option) js_map" where
  "apply_updates [] m = m"
| "apply_updates (update # us) m =
     apply_updates us
       (if u_removed update then AList.delete (u_id update) m
        else AList.update (u_id update) (u_payload update) m)"

definition new_marker_set :: "string \<Rightarrow> DynmapMarkerSetPayload \<Rightarrow> DynmapMarkerSet" where
  "new_marker_set k p = \<lparr>s_id = k, s_label = p_label p, s_hidden = p_hidden p,
     s_priority = p_priority p, s_showLabels = p_showLabels p, s_minZoom = p_minZoom p,
     s_maxZoom = p_maxZoom p, markers = [], areas = [], circles = [], lines = []\<rparr>"

definition missing_set_warning :: "string \<Rightarrow> string" where
  "missing_set_warning k =
     ''ADD_MARKER_SET_UPDATES: Marker set '' @ k @ '' doesn't exist''"

text \<open>
  The parts of the body of the loop of \<open>ADD_MARKER_SET_UPDATES\<close>: creating a set that
  does not exist, updating a set from the updates of its bucket, and appending them to its
  pending queue.
\<close>

definition create_marker_set :: "State \<Rightarrow> string \<Rightarrow> DynmapMarkerSetPayload \<Rightarrow> State" where
  "create_marker_set st k p = st\<lparr>
     markerSets := AList.update k (new_marker_set k p) (markerSets st),
     pendingSetUpdates := AList.update k empty_pending (pendingSetUpdates st)\<rparr>"

definition update_marker_set :: "DynmapMarkerSet \<Rightarrow> DynmapMarkerSetUpdates \<Rightarrow> DynmapMarkerSet" where
  "update_marker_set set' u =
     (let set1 =
        (case payload u of
           Some p \<Rightarrow> set'\<lparr>s_showLabels := p_showLabels p, s_minZoom := p_minZoom p,
             s_maxZoom := p_maxZoom p, s_priority := p_priority p,
             s_label := p_label p, s_hidden := p_hidden p\<rparr>
         | None \<Rightarrow> set')
      in set1\<lparr>
        markers := apply_updates (markerUpdates u) (markers set1),
        areas := apply_updates (areaUpdates u) (areas set1),
        circles := apply_updates (circleUpdates u) (circles set1),
        lines := apply_updates (lineUpdates u) (lines set1)\<rparr>)"

definition append_pending :: "DynmapMarkerSetUpdates \<Rightarrow> DynmapMarkerSetUpdates \<Rightarrow>
    DynmapMarkerSetUpdates" where
  "append_pending setUpdates u = setUpdates\<lparr>
     markerUpdates := markerUpdates setUpdates @ markerUpdates u,
     areaUpdates := areaUpdates setUpdates @ areaUpdates u,
     circleUpdates := circleUpdates setUpdates @ circleUpdates u,
     lineUpdates := lineUpdates setUpdates @ lineUpdates u\<rparr>"

text \<open>
  One iteration of the loop.  Reading a property of a set, or writing to the pending
  queue of a set, that is \<open>undefined\<close> throws a \<open>TypeError\<close>.
\<close>

definition add_marker_set_update :: "State \<Rightarrow> string \<times> DynmapMarkerSetUpdates \<Rightarrow> error + State" where
  "add_marker_set_update st entry' =
     (let k = fst entry'; u = snd entry' in
      if \<not> has (markerSets st) k \<and> payload u = None then
        Inr (st\<lparr>console := console st @ [missing_set_warning k]\<rparr>)
      else
        (let st1 =
           (if \<not> has (markerSets st) k then
              (case payload u of Some p \<Rightarrow> create_marker_set st k p | None \<Rightarrow> st)
            else st)
         in
         if truthy_bool (removed u) then
           Inr (st1\<lparr>markerSets := AList.delete k (markerSets st1),
                    pendingSetUpdates := AList.delete k (pendingSetUpdates st1)\<rparr>)
         else
           (case map_of (markerSets st1) k of
              None \<Rightarrow> Inl TypeError
            | Some set' \<Rightarrow>
               (case map_of (pendingSetUpdates st1) k of
                  None \<Rightarrow> Inl TypeError
                | Some setUpdates \<Rightarrow>
                    Inr (st1\<lparr>
                      markerSets := AList.update k (update_marker_set set' u) (markerSets st1),
                      pendingSetUpdates :=
                        AList.update k (append_pending setUpdates u) (pendingSetUpdates st1)\<rparr>)))))"

fun ADD_MARKER_SET_UPDATES :: "State \<Rightarrow> (string, DynmapMarkerSetUpdates) js_map \<Rightarrow> error + State" where
  "ADD_MARKER_SET_UPDATES st [] = Inr st"
| "ADD_MARKER_SET_UPDATES st (entry' # rest) =
     (case add_marker_set_update st entry' of
        Inl e \<Rightarrow> Inl e
      | Inr st' \<Rightarrow> ADD_MARKER_SET_UPDATES st' rest)"

definition ADD_TILE_UPDATES :: "State \<Rightarrow> DynmapTileUpdate list \<Rightarrow> State" where
  "ADD_TILE_UPDATES st tile_updates =
     st\<lparr>pendingTileUpdates := pendingTileUpdates st @ tile_updates\<rparr>"

definition ADD_CHAT :: "State \<Rightarrow> DynmapChat list \<Rightarrow> State" where
  "ADD_CHAT st chat = st\<lparr>chat_messages := chat @ chat_messages st\<rparr>"

text \<open>\<open>splice(0, amount)\<close> removes the first \<open>amount\<close> elements (none for a negative amount).\<close>

definition splice0 :: "number \<Rightarrow> 'a list \<Rightarrow> 'a list" where
  "splice0 amount xs = drop (nat \<lfloor>amount\<rfloor>) xs"

definition pop_warning :: "string \<Rightarrow> string \<Rightarrow> string" where
  "pop_warning mutation k = mutation @ '': Marker set '' @ k @ '' doesn't exist''"

definition POP_MARKER_UPDATES :: "State \<Rightarrow> string \<Rightarrow> number \<Rightarrow> error + State" where
  "POP_MARKER_UPDATES st markerSet amount =
     (if \<not> has (markerSets st) markerSet then
        Inr (st\<lparr>console := console st @ [pop_warning ''POP_MARKER_UPDATES'' markerSet]\<rparr>)
      else
        (case map_of (pendingSetUpdates st) markerSet of
           None \<Rightarrow> Inl TypeError
         | Some q \<Rightarrow> Inr (st\<lparr>pendingSetUpdates := AList.update markerSet
             (q\<lparr>markerUpdates := splice0 amount (markerUpdates q)\<rparr>) (pendingSetUpdates st)\<rparr>)))"

definition POP_AREA_UPDATES :: "State \<Rightarrow> string \<Rightarrow> number \<Rightarrow> error + State" where
  "POP_AREA_UPDATES st markerSet amount =
     (if \<not> has (markerSets st) markerSet then
        Inr (st\<lparr>console := console st @ [pop_warning ''POP_AREA_UPDATES'' markerSet]\<rparr>)
      else
        (case map_of (pendingSetUpdates st) markerSet of
           None \<Rightarrow> Inl TypeError
         | Some q \<Rightarrow> Inr (st\<lparr>pendingSetUpdates := AList.update markerSet
             (q\<lparr>areaUpdates := splice0 amount (areaUpdates q)\<rparr>) (pendingSetUpdates st)\<rparr>)))"

definition POP_CIRCLE_UPDATES :: "State \<Rightarrow> string \<Rightarrow> number \<Rightarrow> error + State" where
  "POP_CIRCLE_UPDATES st markerSet amount =
     (if \<not> has (markerSets st) markerSet then
        Inr (st\<lparr>console := console st @ [pop_warning ''POP_CIRCLE_UPDATES'' markerSet]\<rparr>)
      else
        (case map_of (pendingSetUpdates st) markerSet of
           None \<Rightarrow> Inl TypeError
         | Some q \<Rightarrow> Inr (st\<lparr>pendingSetUpdates := AList.update markerSet
             (q\<lparr>circleUpdates := splice0 amount (circleUpdates q)\<rparr>) (pendingSetUpdates st)\<rparr>)))"

definition POP_LINE_UPDATES :: "State \<Rightarrow> string \<Rightarrow> number \<Rightarrow> error + State" where
  "POP_LINE_UPDATES st markerSet amount =
     (if \<not> has (markerSets st) markerSet then
        Inr (st\<lparr>console := console st @ [pop_warning ''POP_LINE_UPDATES'' markerSet]\<rparr>)
      else
        (case map_of (pendingSetUpdates st) markerSet of
           None \<Rightarrow> Inl TypeError
         | Some q \<Rightarrow> Inr (st\<lparr>pendingSetUpdates := AList.update markerSet
             (q\<lparr>lineUpdates := splice0 amount (lineUpdates q)\<rparr>) (pendingSetUpdates st)\<rparr>)))"

definition POP_TILE_UPDATES :: "State \<Rightarrow> number \<Rightarrow> State" where
  "POP_TILE_UPDATES st amount =
     st\<lparr>pendingTileUpdates := splice0 amount (pendingTileUpdates st)\<rparr>"

definition INCREMENT_REQUEST_ID :: "State \<Rightarrow> State" where
  "INCREMENT_REQUEST_ID st = st\<lparr>updateRequestId := updateRequestId st + 1\<rparr>"

text \<open>\<open>Object.assign(target, source)\<close> copies the own properties of the source.\<close>

definition assign_location :: "PlayerLocation \<Rightarrow> PlayerLocation \<Rightarrow> PlayerLocation" where
  "assign_location target source = \<lparr>
     pl_x = pl_x source, pl_y = pl_y source, pl_z = pl_z source,
     pl_world = (case pl_world source of None \<Rightarrow> pl_world target | Some w \<Rightarrow> Some w)\<rparr>"

text \<open>The body of the loop of \<open>SET_PLAYERS_ASYNC\<close> up to \<open>players.delete(player)\<close>.\<close>

definition set_player :: "(string, DynmapPlayer) js_map \<Rightarrow> DynmapPlayer \<Rightarrow>
    (string, DynmapPlayer) js_map" where
  "set_player registry player =
     (case map_of registry (account player) of
        Some existing \<Rightarrow>
          AList.update (account player)
            (existing\<lparr>health := health player, armor := armor player,
               location := assign_location (location existing) (location player),
               hidden := hidden player, name := name player,
               sort_weight := sort_weight player\<rparr>)
            registry
      | None \<Rightarrow>
          AList.update (account player)
            \<lparr>account = account player, health = health player, armor = armor player,
              name = name player, sort_weight = sort_weight player,
              hidden = hidden player, location = location player\<rparr>
            registry)"

text \<open>
  The loop: the players still in the set are visited in insertion order, each is deleted
  from the set once merged, and \<open>++count >= 10\<close> leaves the loop.
\<close>

fun set_players_loop :: "nat \<Rightarrow> (string, DynmapPlayer) js_map \<Rightarrow> DynmapPlayer list \<Rightarrow>
    (string, DynmapPlayer) js_map \<times> DynmapPlayer list" where
  "set_players_loop count registry [] = (registry, [])"
| "set_players_loop count registry (player # rest) =
     (let registry' = set_player registry player; count' = count + 1 in
      if count' \<ge> 10 then (registry', rest)
      else set_players_loop count' registry' rest)"

definition SET_PLAYERS_ASYNC :: "State \<Rightarrow> DynmapPlayer list \<Rightarrow> State \<times> DynmapPlayer list" where
  "SET_PLAYERS_ASYNC st new_players =
     (let r = set_players_loop 0 (players st) new_players in
      (st\<lparr>players := fst r\<rparr>, snd r))"

text \<open>
  \<open>SYNC_PLAYERS\<close>: the loop visits the entries of the registry in order and deletes the
  key of each entry whose account is not in \<open>keep\<close>.
\<close>

fun sync_players_loop :: "(string \<times> DynmapPlayer) list \<Rightarrow> string set \<Rightarrow>
    (string, DynmapPlayer) js_map \<Rightarrow> (string, DynmapPlayer) js_map" where
  "sync_players_loop [] keep registry = registry"
| "sync_players_loop ((key, player) # rest) keep registry =
     sync_players_loop rest keep
       (if account player \<notin> keep then AList.delete key registry else registry)"

definition SYNC_PLAYERS :: "State \<Rightarrow> string set \<Rightarrow> State" where
  "SYNC_PLAYERS st keep = st\<lparr>players := sync_players_loop (players st) keep (players st)\<rparr>"

definition SET_CURRENT_MAP :: "State \<Rightarrow> string \<Rightarrow> string \<Rightarrow> error + State" where
  "SET_CURRENT_MAP st worldName mapName0 =
     (let mapName = worldName @ ''_'' @ mapName0 in
      if \<not> has (worlds st) worldName then Inl (RangeError (''Unknown world '' @ worldName))
      else if \<not> has (maps' st) mapName then Inl (RangeError (''Unknown map '' @ mapName))
      else
        (let newWorld = map_of (worlds st) worldName;
             st1 = (if map_option w_address (currentWorld st) \<noteq> map_option w_address newWorld
                    then
                      st\<lparr>currentWorld := map_of (worlds st) worldName,
                         markerSets := [], pendingSetUpdates := [],
                         pendingTileUpdates := []\<rparr>
                    else st)
         in Inr (st1\<lparr>currentMap := map_of (maps' st) mapName\<rparr>)))"

section \<open>Notions of the specification\<close>

text \<open>
  The fields that \<open>buildUpdates\<close> requires of a record before it looks at the
  watermark: none for a component, the message (or account, or name) and a non-zero
  timestamp for the others.
\<close>

definition required_fields :: "entry \<Rightarrow> bool" where
  "required_fields entry' =
     (if e_type entry' = Some ''component'' then True
      else if e_type entry' = Some ''chat'' then
        truthy_str (e_message entry') \<and> truthy_ts (e_timestamp entry')
      else if e_type entry' = Some ''tile'' then
        truthy_str (e_name entry') \<and> truthy_ts (e_timestamp entry')
      else truthy_str (e_account entry') \<and> truthy_ts (e_timestamp entry'))"

text \<open>
  An event whose timestamp is a number, and the order newest first: both events carry a
  number as timestamp, and the first is not older.
\<close>

definition numeric_timestamp :: "DynmapChat \<Rightarrow> bool" where
  "numeric_timestamp x =
     (case ch_timestamp x of Some (TNumber n) \<Rightarrow> True | _ \<Rightarrow> False)"

definition newer_or_same :: "DynmapChat \<Rightarrow> DynmapChat \<Rightarrow> bool" where
  "newer_or_same a b =
     (case (ch_timestamp a, ch_timestamp b) of
        (Some (TNumber ta), Some (TNumber tb)) \<Rightarrow> tb \<le> ta
      | _ \<Rightarrow> False)"

text \<open>The chat events that one record, classified alone, contributes.\<close>

definition chat_events :: "number \<Rightarrow> entry \<Rightarrow> DynmapChat list" where
  "chat_events lastUpdate entry' =
     (case classify lastUpdate initial entry' of
        Inl e \<Rightarrow> []
      | Inr c \<Rightarrow> up_chat (updates c))"

text \<open>Scenario A: a \<open>setupdated\<close> record for the set \<open>s1\<close> and nothing else.\<close>

definition scenario_A :: entry where
  "scenario_A = empty_entry\<lparr>e_type := Some ''component'', e_msg := Some ''setupdated'',
     e_id := Some ''s1''\<rparr>"

text \<open>
  The keys of a \<open>Map\<close>, and the invariant of the store: a set has a pending queue
  exactly when it exists.
\<close>

definition key_set :: "('k, 'v) js_map \<Rightarrow> 'k set" where
  "key_set m = set (map fst m)"

definition queues_match_sets :: "State \<Rightarrow> bool" where
  "queues_match_sets st = (key_set (pendingSetUpdates st) = key_set (markerSets st))"

text \<open>
  The states of the store: the initial state and every state that a mutation produces
  from one.  \<open>SET_CURRENT_MAP\<close> throws before it writes anything, so a call that
  throws produces no new state; the other mutations that can throw are shown below not
  to throw from any of these states.
\<close>

inductive reachable :: "State \<Rightarrow> bool" where
  initial_state: "reachable (state now)"
| set_worlds: "reachable st \<Longrightarrow> reachable (SET_WORLDS st new_worlds)"
| set_marker_sets: "reachable st \<Longrightarrow> reachable (SET_MARKER_SETS st sets)"
| add_world: "reachable st \<Longrightarrow> reachable (ADD_WORLD st world)"
| set_update_timestamp: "reachable st \<Longrightarrow> reachable (SET_UPDATE_TIMESTAMP st timestamp)"
| add_marker_set_updates:
    "reachable st \<Longrightarrow> ADD_MARKER_SET_UPDATES st ups = Inr st' \<Longrightarrow> reachable st'"
| add_tile_updates: "reachable st \<Longrightarrow> reachable (ADD_TILE_UPDATES st tile_updates)"
| add_chat: "reachable st \<Longrightarrow> reachable (ADD_CHAT st chat)"
| pop_marker_updates:
    "reachable st \<Longrightarrow> POP_MARKER_UPDATES st k amount = Inr st' \<Longrightarrow> reachable st'"
| pop_area_updates:
    "reachable st \<Longrightarrow> POP_AREA_UPDATES st k amount = Inr st' \<Longrightarrow> reachable st'"
| pop_circle_updates:
    "reachable st \<Longrightarrow> POP_CIRCLE_UPDATES st k amount = Inr st' \<Longrightarrow> reachable st'"
| pop_line_updates:
    "reachable st \<Longrightarrow> POP_LINE_UPDATES st k amount = Inr st' \<Longrightarrow> reachable st'"
| pop_tile_updates: "reachable st \<Longrightarrow> reachable (POP_TILE_UPDATES st amount)"
| increment_request_id: "reachable st \<Longrightarrow> reachable (INCREMENT_REQUEST_ID st)"
| set_players_async: "reachable st \<Longrightarrow> reachable (fst (SET_PLAYERS_ASYNC st new_players))"
| sync_players: "reachable st \<Longrightarrow> reachable (SYNC_PLAYERS st keep)"
| set_current_map:
    "reachable st \<Longrightarrow> SET_CURRENT_MAP st worldName mapName = Inr st' \<Longrightarrow> reachable st'"

text \<open>A batch of three accepted events, two of them with the same timestamp.\<close>

definition example_batch :: "entry list" where
  "example_batch =
     [empty_entry\<lparr>e_type := Some ''chat'', e_message := Some ''a'',
        e_timestamp := Some (TNumber 100), e_source := Some ''player''\<rparr>,
      empty_entry\<lparr>e_type := Some ''chat'', e_message := Some ''b'',
        e_timestamp := Some (TNumber 200), e_source := Some ''web''\<rparr>,
      empty_entry\<lparr>e_type := Some ''playerjoin'', e_account := Some ''c'',
        e_timestamp := Some (TNumber 100)\<rparr>]"

text \<open>
  A batch of three chat records with the timestamps \<open>100\<close>, \<open>"x"\<close> and \<open>200\<close>, and
  the result of \<open>buildUpdates\<close> for it.
\<close>

definition chat_at :: "string \<Rightarrow> timestamp \<Rightarrow> entry" where
  "chat_at message t = empty_entry\<lparr>e_type := Some ''chat'', e_message := Some message,
     e_timestamp := Some t, e_source := Some ''player''\<rparr>"

definition unordered_batch :: "entry list" where
  "unordered_batch =
     [chat_at ''a'' (TNumber 100), chat_at ''b'' (NonNumeric ''x''), chat_at ''c'' (TNumber 200)]"

definition chat_event_at :: "string \<Rightarrow> timestamp \<Rightarrow> DynmapChat" where
  "chat_event_at message t = \<lparr>ch_type = ''chat'', ch_source = Some ''player'',
     ch_playerAccount = None, ch_playerName = None, ch_message = Some message,
     ch_timestamp = Some t, ch_channel = None\<rparr>"

definition unordered_result :: Classified where
  "unordered_result = initial\<lparr>updates := \<lparr>up_markerSets = [], up_tiles = [],
     up_chat = [chat_event_at ''a'' (TNumber 100), chat_event_at ''b'' (NonNumeric ''x''),
       chat_event_at ''c'' (TNumber 200)]\<rparr>\<rparr>"

text \<open>Arithmetic without rounding, for concrete instances.\<close>

definition exact_arithmetic :: double_arithmetic where
  "exact_arithmetic = \<lparr>plus_d = (+), minus_d = (-), times_d = (*)\<rparr>"

text \<open>Twenty-five snapshots with distinct accounts.\<close>

definition example_players :: "DynmapPlayer list" where
  "example_players =
     map (\<lambda>c. \<lparr>account = [c], health = 20, armor = 0, name = [c], sort_weight = 0,
                hidden = Some False,
                location = \<lparr>pl_x = 0.5, pl_y = 64, pl_z = 0.5, pl_world = Some (Some ''world'')\<rparr>\<rparr>)
       ''abcdefghijklmnopqrstuvwxy''"


section \<open>Auxiliary lemmas\<close>

lemmas drop_defs = drop_stale_def drop_noSet_def drop_noId_def drop_unknownType_def
  drop_unknownCType_def drop_incomplete_def drop_notImplemented_def

lemma component_below_watermark:
  assumes "e_timestamp entry' = Some (TNumber t)" and "t < lastUpdate"
  shows "classify_component lastUpdate c entry' = Inr (drop_stale c)"
  using assms by (simp add: classify_component_def truthy_date_def ts_lt_def to_number_def)

lemma chat_below_watermark:
  assumes "e_timestamp entry' = Some (TNumber t)" and "t < lastUpdate"
  shows "classify_chat lastUpdate c entry' =
    Inr (if truthy_str (e_message entry') \<and> truthy_ts (e_timestamp entry')
         then drop_stale c else drop_incomplete c)"
  using assms by (simp add: classify_chat_def ts_lt_def to_number_def)

lemma playerjoin_below_watermark:
  assumes "e_timestamp entry' = Some (TNumber t)" and "t < lastUpdate"
  shows "classify_playerjoin lastUpdate c entry' =
    Inr (if truthy_str (e_account entry') \<and> truthy_ts (e_timestamp entry')
         then drop_stale c else drop_incomplete c)"
  using assms by (simp add: classify_playerjoin_def ts_lt_def to_number_def)

lemma playerquit_below_watermark:
  assumes "e_timestamp entry' = Some (TNumber t)" and "t < lastUpdate"
  shows "classify_playerquit lastUpdate c entry' =
    Inr (if truthy_str (e_account entry') \<and> truthy_ts (e_timestamp entry')
         then drop_stale c else drop_incomplete c)"
  using assms by (simp add: classify_playerquit_def ts_lt_def to_number_def)

lemma tile_below_watermark:
  assumes "e_timestamp entry' = Some (TNumber t)" and "t < lastUpdate"
  shows "classify_tile lastUpdate c entry' =
    Inr (if truthy_str (e_name entry') \<and> truthy_ts (e_timestamp entry')
         then drop_stale c else drop_incomplete c)"
  using assms by (simp add: classify_tile_def truthy_date_def ts_lt_def to_number_def)

lemmas below_watermark = component_below_watermark chat_below_watermark
  playerjoin_below_watermark playerquit_below_watermark tile_below_watermark

lemma classify_below_watermark:
  assumes "e_timestamp entry' = Some (TNumber t)" and "t < lastUpdate"
  shows "\<exists>c'. classify lastUpdate c entry' = Inr c' \<and> updates c' = updates c
    \<and> accepted c' = accepted c"
  unfolding classify_def
  by (simp add: below_watermark [OF assms] drop_defs)

lemma classify_all_below_watermark:
  assumes "\<forall>e \<in> set data. \<exists>t. e_timestamp e = Some (TNumber t) \<and> t < lastUpdate"
  shows "\<exists>c'. classify_all lastUpdate c data = Inr c' \<and> updates c' = updates c
    \<and> accepted c' = accepted c"
  using assms
proof (induction data arbitrary: c)
  case Nil
  then show ?case by simp
next
  case (Cons e data)
  then obtain t where t: "e_timestamp e = Some (TNumber t)" "t < lastUpdate" by auto
  from classify_below_watermark [OF t] obtain c1 where
    c1: "classify lastUpdate c e = Inr c1" "updates c1 = updates c" "accepted c1 = accepted c"
    by blast
  from Cons.IH [of c1] Cons.prems obtain c2 where
    "classify_all lastUpdate c1 data = Inr c2" "updates c2 = updates c1"
    "accepted c2 = accepted c1"
    by auto
  with c1 show ?case by simp
qed

lemma set_js_insert: "set (js_insert cmp x ys) = insert x (set ys)"
  by (induction ys) auto

lemma set_js_sort: "set (js_sort cmp xs) = set xs"
  by (induction xs) (auto simp add: set_js_insert)

lemma length_js_insert: "length (js_insert cmp x ys) = Suc (length ys)"
  by (induction ys) auto

lemma length_js_sort: "length (js_sort cmp xs) = length xs"
  by (induction xs) (auto simp add: length_js_insert)

lemma newer_or_same_trans:
  "newer_or_same a b \<Longrightarrow> newer_or_same b c \<Longrightarrow> newer_or_same a c"
  by (auto simp add: newer_or_same_def split: option.splits timestamp.splits)

lemma chat_order_numeric:
  assumes "numeric_timestamp x" and "numeric_timestamp y"
  shows "(compare_value (chat_order x y) \<le> 0) = newer_or_same x y"
    and "(\<not> compare_value (chat_order x y) \<le> 0) \<Longrightarrow> newer_or_same y x"
  using assms
  by (auto simp add: chat_order_def compare_value_def newer_or_same_def numeric_timestamp_def
      to_number_def split: option.splits timestamp.splits)

lemma sorted_js_insert:
  assumes "sorted_wrt newer_or_same ys" and "numeric_timestamp x"
    and "\<forall>y \<in> set ys. numeric_timestamp y"
  shows "sorted_wrt newer_or_same (js_insert chat_order x ys)"
  using assms
proof (induction ys)
  case Nil
  then show ?case by simp
next
  case (Cons y ys)
  from Cons.prems have num: "numeric_timestamp x" "numeric_timestamp y" by simp_all
  show ?case
  proof (cases "compare_value (chat_order x y) \<le> 0")
    case True
    with chat_order_numeric(1) [OF num] have xy: "newer_or_same x y" by simp
    with Cons.prems have "\<forall>z \<in> set ys. newer_or_same x z"
      by (auto intro: newer_or_same_trans)
    with xy True Cons.prems show ?thesis by simp
  next
    case False
    with chat_order_numeric(2) [OF num] have yx: "newer_or_same y x" by simp
    from Cons have "sorted_wrt newer_or_same (js_insert chat_order x ys)" by simp
    with False yx Cons.prems show ?thesis
      by (auto simp add: set_js_insert)
  qed
qed

lemma sorted_js_sort:
  assumes "\<forall>x \<in> set xs. numeric_timestamp x"
  shows "sorted_wrt newer_or_same (js_sort chat_order xs)"
  using assms
  by (induction xs) (auto simp add: sorted_js_insert set_js_sort)

lemma chat_order_same_timestamp:
  assumes "ch_timestamp x = Some t" and "ch_timestamp y = Some t"
  shows "compare_value (chat_order x y) \<le> 0"
  using assms
  by (cases t) (simp_all add: chat_order_def compare_value_def to_number_def)

lemma filter_js_insert:
  "filter (\<lambda>c. ch_timestamp c = Some t) (js_insert chat_order x ys) =
   filter (\<lambda>c. ch_timestamp c = Some t) (x # ys)"
proof (induction ys)
  case Nil
  then show ?case by simp
next
  case (Cons y ys)
  show ?case
  proof (cases "compare_value (chat_order x y) \<le> 0")
    case True
    then show ?thesis by simp
  next
    case False
    with chat_order_same_timestamp [of x t y]
    have "\<not> (ch_timestamp x = Some t \<and> ch_timestamp y = Some t)"
      by blast
    with False Cons show ?thesis by auto
  qed
qed

lemma filter_js_sort:
  "filter (\<lambda>c. ch_timestamp c = Some t) (js_sort chat_order xs) =
   filter (\<lambda>c. ch_timestamp c = Some t) xs"
  by (induction xs) (simp_all add: filter_js_insert)

lemma component_chat:
  assumes "classify_component lastUpdate c entry' = Inr c'"
  shows "up_chat (updates c') = up_chat (updates c)"
  using assms
  by (auto simp add: classify_component_def drop_defs Let_def split: if_splits option.splits)

lemma tile_chat:
  assumes "classify_tile lastUpdate c entry' = Inr c'"
  shows "up_chat (updates c') = up_chat (updates c)"
  using assms
  by (auto simp add: classify_tile_def drop_defs split: if_splits)

lemma chat_chat:
  assumes "classify_chat lastUpdate c entry' = Inr c'"
    and "classify_chat lastUpdate initial entry' = Inr c0"
  shows "up_chat (updates c') = up_chat (updates c) @ up_chat (updates c0)"
  using assms
  by (auto simp add: classify_chat_def drop_defs initial_def split: if_splits)

lemma playerjoin_chat:
  assumes "classify_playerjoin lastUpdate c entry' = Inr c'"
    and "classify_playerjoin lastUpdate initial entry' = Inr c0"
  shows "up_chat (updates c') = up_chat (updates c) @ up_chat (updates c0)"
  using assms
  by (auto simp add: classify_playerjoin_def drop_defs initial_def split: if_splits)

lemma playerquit_chat:
  assumes "classify_playerquit lastUpdate c entry' = Inr c'"
    and "classify_playerquit lastUpdate initial entry' = Inr c0"
  shows "up_chat (updates c') = up_chat (updates c) @ up_chat (updates c0)"
  using assms
  by (auto simp add: classify_playerquit_def drop_defs initial_def split: if_splits)

lemma chat_total: "\<exists>c0. classify_chat lastUpdate c entry' = Inr c0"
  by (simp add: classify_chat_def)

lemma playerjoin_total: "\<exists>c0. classify_playerjoin lastUpdate c entry' = Inr c0"
  by (simp add: classify_playerjoin_def)

lemma playerquit_total: "\<exists>c0. classify_playerquit lastUpdate c entry' = Inr c0"
  by (simp add: classify_playerquit_def)

lemma classify_chat_append:
  assumes "classify lastUpdate c entry' = Inr c'"
  shows "up_chat (updates c') = up_chat (updates c) @ chat_events lastUpdate entry'"
proof -
  consider (component) "e_type entry' = Some ''component''"
    | (chat) "e_type entry' = Some ''chat''"
    | (playerjoin) "e_type entry' = Some ''playerjoin''"
    | (playerquit) "e_type entry' = Some ''playerquit''"
    | (tile) "e_type entry' = Some ''tile''"
    | (other) "e_type entry' \<noteq> Some ''component''" "e_type entry' \<noteq> Some ''chat''"
        "e_type entry' \<noteq> Some ''playerjoin''" "e_type entry' \<noteq> Some ''playerquit''"
        "e_type entry' \<noteq> Some ''tile''"
    by blast
  then show ?thesis
  proof cases
    case component
    then have eq: "classify lastUpdate c entry' = classify_component lastUpdate c entry'"
      "classify lastUpdate initial entry' = classify_component lastUpdate initial entry'"
      by (simp_all add: classify_def)
    have "chat_events lastUpdate entry' = []"
    proof (cases "classify_component lastUpdate initial entry'")
      case (Inl e)
      with eq show ?thesis by (simp add: chat_events_def)
    next
      case (Inr c0)
      from component_chat [OF Inr] eq Inr show ?thesis
        by (simp add: chat_events_def initial_def)
    qed
    moreover from assms eq have "up_chat (updates c') = up_chat (updates c)"
      by (simp add: component_chat)
    ultimately show ?thesis by simp
  next
    case chat
    then have eq: "classify lastUpdate c entry' = classify_chat lastUpdate c entry'"
      "classify lastUpdate initial entry' = classify_chat lastUpdate initial entry'"
      by (simp_all add: classify_def)
    from chat_total obtain c0 where c0: "classify_chat lastUpdate initial entry' = Inr c0"
      by blast
    from assms eq have "classify_chat lastUpdate c entry' = Inr c'" by simp
    from chat_chat [OF this c0] eq c0 show ?thesis
      by (simp add: chat_events_def)
  next
    case playerjoin
    then have eq: "classify lastUpdate c entry' = classify_playerjoin lastUpdate c entry'"
      "classify lastUpdate initial entry' = classify_playerjoin lastUpdate initial entry'"
      by (simp_all add: classify_def)
    from playerjoin_total obtain c0 where
      c0: "classify_playerjoin lastUpdate initial entry' = Inr c0"
      by blast
    from assms eq have "classify_playerjoin lastUpdate c entry' = Inr c'" by simp
    from playerjoin_chat [OF this c0] eq c0 show ?thesis
      by (simp add: chat_events_def)
  next
    case playerquit
    then have eq: "classify lastUpdate c entry' = classify_playerquit lastUpdate c entry'"
      "classify lastUpdate initial entry' = classify_playerquit lastUpdate initial entry'"
      by (simp_all add: classify_def)
    from playerquit_total obtain c0 where
      c0: "classify_playerquit lastUpdate initial entry' = Inr c0"
      by blast
    from assms eq have "classify_playerquit lastUpdate c entry' = Inr c'" by simp
    from playerquit_chat [OF this c0] eq c0 show ?thesis
      by (simp add: chat_events_def)
  next
    case tile
    then have eq: "classify lastUpdate c entry' = classify_tile lastUpdate c entry'"
      "classify lastUpdate initial entry' = classify_tile lastUpdate initial entry'"
      by (simp_all add: classify_def)
    have "chat_events lastUpdate entry' = []"
    proof (cases "classify_tile lastUpdate initial entry'")
      case (Inl e)
      with eq show ?thesis by (simp add: chat_events_def)
    next
      case (Inr c0)
      from tile_chat [OF Inr] eq Inr show ?thesis
        by (simp add: chat_events_def initial_def)
    qed
    moreover from assms eq have "up_chat (updates c') = up_chat (updates c)"
      by (simp add: tile_chat)
    ultimately show ?thesis by simp
  next
    case other
    then have eq: "classify lastUpdate c entry' = Inr (drop_unknownType c)"
      "classify lastUpdate initial entry' = Inr (drop_unknownType initial)"
      by (simp_all add: classify_def)
    with assms show ?thesis
      by (auto simp add: chat_events_def drop_defs initial_def)
  qed
qed

lemma classify_all_chat_append:
  assumes "classify_all lastUpdate c data = Inr c'"
  shows "up_chat (updates c') = up_chat (updates c) @ concat (map (chat_events lastUpdate) data)"
  using assms
proof (induction data arbitrary: c)
  case Nil
  then show ?case by simp
next
  case (Cons e data)
  then obtain c1 where c1: "classify lastUpdate c e = Inr c1"
    "classify_all lastUpdate c1 data = Inr c'"
    by (auto split: sum.splits)
  from classify_chat_append [OF c1(1)] Cons.IH [OF c1(2)]
  show ?case by simp
qed

lemma key_set_dom: "key_set m = dom (map_of m)"
  by (simp add: key_set_def dom_map_of_conv_image_fst)

lemma has_key_set: "has m k = (k \<in> key_set m)"
  by (auto simp add: has_def key_set_dom)

lemma key_set_update: "key_set (AList.update k v m) = insert k (key_set m)"
  by (simp add: key_set_dom update_conv')

lemma key_set_delete: "key_set (AList.delete k m) = key_set m - {k}"
  by (simp add: key_set_dom delete_conv')

lemma has_update: "has (AList.update k v m) k' = (k' = k \<or> has m k')"
  by (auto simp add: has_key_set key_set_update)

lemma has_delete: "has (AList.delete k m) k' = (k' \<noteq> k \<and> has m k')"
  by (auto simp add: has_key_set key_set_delete)

lemma scenario_A_classified: "buildUpdates w [scenario_A] = Inr (drop_unknownCType initial)"
  by (simp add: buildUpdates_def classify_def classify_component_def empty_entry_def
      scenario_A_def truthy_date_def ts_lt_def to_number_def truthy_str_def startsWith_def
      drop_unknownCType_def initial_def)

lemma add_update_missing_set:
  assumes "\<not> has (markerSets st) k" and "payload u = None"
  shows "add_marker_set_update st (k, u) = Inr (st\<lparr>console := console st @ [missing_set_warning k]\<rparr>)"
  using assms by (simp add: add_marker_set_update_def)

lemma add_update_shape:
  assumes "add_marker_set_update st (k, u) = Inr st'"
  shows "(\<not> has (markerSets st) k \<and> payload u = None
        \<and> st' = st\<lparr>console := console st @ [missing_set_warning k]\<rparr>)
    \<or> (\<exists>st1. (st1 = st \<or> (\<exists>p. st1 = create_marker_set st k p))
        \<and> (st' = st1\<lparr>markerSets := AList.delete k (markerSets st1),
                pendingSetUpdates := AList.delete k (pendingSetUpdates st1)\<rparr>
           \<or> (\<exists>s q. st' = st1\<lparr>markerSets := AList.update k s (markerSets st1),
                pendingSetUpdates := AList.update k q (pendingSetUpdates st1)\<rparr>)))"
proof (cases "\<not> has (markerSets st) k \<and> payload u = None")
  case True
  with assms show ?thesis by (simp add: add_marker_set_update_def Let_def)
next
  case False
  show ?thesis
  proof (cases "has (markerSets st) k")
    case True
    show ?thesis
    proof (cases "truthy_bool (removed u)")
      case r: True
      with True assms have "st' = st\<lparr>markerSets := AList.delete k (markerSets st),
                pendingSetUpdates := AList.delete k (pendingSetUpdates st)\<rparr>"
        by (simp add: add_marker_set_update_def Let_def)
      then show ?thesis by blast
    next
      case r: False
      with True assms have "\<exists>s q. st' = st\<lparr>markerSets := AList.update k s (markerSets st),
                pendingSetUpdates := AList.update k q (pendingSetUpdates st)\<rparr>"
        by (simp add: add_marker_set_update_def Let_def split: option.splits) blast
      then show ?thesis by blast
    qed
  next
    case nh: False
    with False obtain p where p: "payload u = Some p" by auto
    define st1 where "st1 = create_marker_set st k p"
    show ?thesis
    proof (cases "truthy_bool (removed u)")
      case r: True
      with nh p assms have "st' = st1\<lparr>markerSets := AList.delete k (markerSets st1),
                pendingSetUpdates := AList.delete k (pendingSetUpdates st1)\<rparr>"
        by (auto simp add: add_marker_set_update_def st1_def Let_def)
      with st1_def show ?thesis by blast
    next
      case r: False
      with nh p assms have "\<exists>s q. st' = st1\<lparr>markerSets := AList.update k s (markerSets st1),
                pendingSetUpdates := AList.update k q (pendingSetUpdates st1)\<rparr>"
        unfolding st1_def
        by (simp add: add_marker_set_update_def Let_def split: option.splits) blast
      with st1_def show ?thesis by blast
    qed
  qed
qed

lemma add_update_other_key:
  assumes "add_marker_set_update st (k', u) = Inr st'" and "k' \<noteq> k"
  shows "has (markerSets st') k = has (markerSets st) k
    \<and> has (pendingSetUpdates st') k = has (pendingSetUpdates st) k"
proof -
  have created: "has (markerSets (create_marker_set st k' p)) k = has (markerSets st) k
    \<and> has (pendingSetUpdates (create_marker_set st k' p)) k = has (pendingSetUpdates st) k"
    for p
    using assms(2) by (simp add: create_marker_set_def has_update)
  from add_update_shape [OF assms(1)] created assms(2) show ?thesis
    by (elim disjE exE conjE) (simp_all add: has_update has_delete)
qed

lemma no_set_from_entity_deltas:
  assumes "ADD_MARKER_SET_UPDATES st ups = Inr st'"
    and "\<not> has (markerSets st) k"
    and "\<forall>u. (k, u) \<in> set ups \<longrightarrow> payload u = None"
  shows "\<not> has (markerSets st') k"
  using assms
proof (induction ups arbitrary: st)
  case Nil
  then show ?case by simp
next
  case (Cons e ups)
  obtain k' u where e: "e = (k', u)" by (cases e)
  from Cons.prems(1) obtain st1 where st1: "add_marker_set_update st e = Inr st1"
    "ADD_MARKER_SET_UPDATES st1 ups = Inr st'"
    by (auto split: sum.splits)
  have "\<not> has (markerSets st1) k"
  proof (cases "k' = k")
    case True
    have "(k, u) \<in> set (e # ups)" unfolding e True by simp
    with Cons.prems(3) have "payload u = None" by blast
    from add_update_missing_set [OF Cons.prems(2) this] st1(1) e True
    have "st1 = st\<lparr>console := console st @ [missing_set_warning k]\<rparr>" by simp
    with Cons.prems(2) show ?thesis by simp
  next
    case False
    from add_update_other_key [OF st1(1) [unfolded e] False] Cons.prems(2)
    show ?thesis by simp
  qed
  from Cons.IH [OF st1(2) this] Cons.prems(3) show ?case by simp
qed

lemma add_update_removed:
  assumes "has (markerSets st) k" and "truthy_bool (removed u)"
  shows "add_marker_set_update st (k, u) =
    Inr (st\<lparr>markerSets := AList.delete k (markerSets st),
            pendingSetUpdates := AList.delete k (pendingSetUpdates st)\<rparr>)"
  using assms by (simp add: add_marker_set_update_def Let_def)

lemma add_updates_other_keys:
  assumes "ADD_MARKER_SET_UPDATES st ups = Inr st'" and "k \<notin> fst ` set ups"
  shows "has (markerSets st') k = has (markerSets st) k
    \<and> has (pendingSetUpdates st') k = has (pendingSetUpdates st) k"
  using assms
proof (induction ups arbitrary: st)
  case Nil
  then show ?case by simp
next
  case (Cons e ups)
  obtain k' u where e: "e = (k', u)" by (cases e)
  from Cons.prems(1) obtain st1 where st1: "add_marker_set_update st e = Inr st1"
    "ADD_MARKER_SET_UPDATES st1 ups = Inr st'"
    by (auto split: sum.splits)
  from Cons.prems(2) e have ne: "k' \<noteq> k" "k \<notin> fst ` set ups" by auto
  from add_update_other_key [OF st1(1) [unfolded e] ne(1)] Cons.IH [OF st1(2) ne(2)]
  show ?case by simp
qed

lemma removed_set_stays_deleted:
  assumes "ADD_MARKER_SET_UPDATES st ups = Inr st'"
    and "distinct (map fst ups)" and "(k, u) \<in> set ups"
    and "truthy_bool (removed u)" and "has (markerSets st) k"
  shows "\<not> has (markerSets st') k \<and> \<not> has (pendingSetUpdates st') k"
  using assms
proof (induction ups arbitrary: st)
  case Nil
  then show ?case by simp
next
  case (Cons e ups)
  obtain k' u' where e: "e = (k', u')" by (cases e)
  from Cons.prems(1) obtain st1 where st1: "add_marker_set_update st e = Inr st1"
    "ADD_MARKER_SET_UPDATES st1 ups = Inr st'"
    by (auto split: sum.splits)
  show ?case
  proof (cases "e = (k, u)")
    case True
    from add_update_removed [OF Cons.prems(5,4)] st1(1) True
    have "st1 = st\<lparr>markerSets := AList.delete k (markerSets st),
            pendingSetUpdates := AList.delete k (pendingSetUpdates st)\<rparr>"
      by simp
    then have gone: "\<not> has (markerSets st1) k" "\<not> has (pendingSetUpdates st1) k"
      by (simp_all add: has_delete)
    from Cons.prems(2) True have "k \<notin> fst ` set ups" by auto
    from add_updates_other_keys [OF st1(2) this] gone show ?thesis by simp
  next
    case False
    with Cons.prems(3) have mem: "(k, u) \<in> set ups" by simp
    with Cons.prems(2) e have ne: "k' \<noteq> k" by force
    from add_update_other_key [OF st1(1) [unfolded e] ne] Cons.prems(5)
    have "has (markerSets st1) k" by simp
    from Cons.IH [OF st1(2) _ mem Cons.prems(4) this] Cons.prems(2)
    show ?thesis by simp
  qed
qed

lemmas js_defs = truthy_str_def truthy_num_def truthy_bool_def truthy_date_def
  truthy_ts_def ts_or_undefined_def ts_lt_def to_number_def
  str_or_def num_or_def startsWith_def endsWith_def has_def str_or_undefined_def

lemma key_set_fold_update:
  "key_set (foldl (\<lambda>p entry'. AList.update (fst entry') v p) acc sets) = key_set acc \<union> key_set sets"
proof (induction sets arbitrary: acc)
  case Nil
  then show ?case by (simp add: key_set_def)
next
  case (Cons e sets)
  have "key_set (e # sets) = insert (fst e) (key_set sets)" by (simp add: key_set_def)
  with Cons [of "AList.update (fst e) v acc"] show ?case
    by (simp add: key_set_update)
qed

lemma key_set_Nil: "key_set [] = {}"
  by (simp add: key_set_def)

lemma SET_MARKER_SETS_invariant: "queues_match_sets (SET_MARKER_SETS st sets)"
  by (simp add: queues_match_sets_def SET_MARKER_SETS_def key_set_fold_update key_set_Nil)

lemma add_update_existing:
  assumes "map_of (markerSets st) k = Some s" and "map_of (pendingSetUpdates st) k = Some q"
  shows "add_marker_set_update st (k, u) =
    (if truthy_bool (removed u) then
       Inr (st\<lparr>markerSets := AList.delete k (markerSets st),
               pendingSetUpdates := AList.delete k (pendingSetUpdates st)\<rparr>)
     else
       Inr (st\<lparr>markerSets := AList.update k (update_marker_set s u) (markerSets st),
               pendingSetUpdates :=
                 AList.update k (append_pending q u) (pendingSetUpdates st)\<rparr>))"
  using assms by (simp add: add_marker_set_update_def Let_def has_def)

lemma add_update_created:
  assumes "\<not> has (markerSets st) k" and "payload u = Some p"
  shows "add_marker_set_update st (k, u) =
    add_marker_set_update (create_marker_set st k p) (k, u\<lparr>payload := None\<rparr>)"
proof -
  let ?st1 = "create_marker_set st k p"
  have lookups: "map_of (markerSets ?st1) k = Some (new_marker_set k p)"
    "map_of (pendingSetUpdates ?st1) k = Some empty_pending"
    by (simp_all add: create_marker_set_def update_conv')
  have same: "update_marker_set (new_marker_set k p) (u\<lparr>payload := None\<rparr>) =
    update_marker_set (new_marker_set k p) u"
    using assms(2) by (simp add: update_marker_set_def new_marker_set_def)
  have "add_marker_set_update st (k, u) =
    (if truthy_bool (removed u) then
       Inr (?st1\<lparr>markerSets := AList.delete k (markerSets ?st1),
               pendingSetUpdates := AList.delete k (pendingSetUpdates ?st1)\<rparr>)
     else
       Inr (?st1\<lparr>markerSets :=
                 AList.update k (update_marker_set (new_marker_set k p) u) (markerSets ?st1),
               pendingSetUpdates :=
                 AList.update k (append_pending empty_pending u) (pendingSetUpdates ?st1)\<rparr>))"
    using assms lookups by (simp add: add_marker_set_update_def Let_def)
  also have "\<dots> = add_marker_set_update ?st1 (k, u\<lparr>payload := None\<rparr>)"
    using add_update_existing [OF lookups, of "u\<lparr>payload := None\<rparr>"] same
    by (simp add: append_pending_def)
  finally show ?thesis .
qed

lemma add_update_existing_invariant:
  assumes "queues_match_sets st" and "has (markerSets st) k"
  shows "\<exists>st'. add_marker_set_update st (k, u) = Inr st' \<and> queues_match_sets st'"
proof -
  from assms have "has (pendingSetUpdates st) k"
    by (simp add: has_key_set queues_match_sets_def)
  with assms(2) obtain s q where
    sq: "map_of (markerSets st) k = Some s" "map_of (pendingSetUpdates st) k = Some q"
    by (auto simp add: has_def)
  from assms(1) show ?thesis
    by (simp add: add_update_existing [OF sq] queues_match_sets_def key_set_update
        key_set_delete)
qed

lemma add_update_invariant:
  assumes "queues_match_sets st"
  shows "\<exists>st'. add_marker_set_update st (k, u) = Inr st' \<and> queues_match_sets st'"
proof (cases "has (markerSets st) k")
  case True
  from add_update_existing_invariant [OF assms True] show ?thesis .
next
  case False
  show ?thesis
  proof (cases "payload u")
    case None
    with False assms show ?thesis
      by (simp add: add_marker_set_update_def Let_def queues_match_sets_def)
  next
    case (Some p)
    have inv1: "queues_match_sets (create_marker_set st k p)"
      using assms by (simp add: create_marker_set_def queues_match_sets_def key_set_update)
    have has1: "has (markerSets (create_marker_set st k p)) k"
      by (simp add: create_marker_set_def has_update)
    from add_update_existing_invariant [OF inv1 has1] add_update_created [OF False Some]
    show ?thesis by simp
  qed
qed

lemma ADD_MARKER_SET_UPDATES_invariant:
  assumes "queues_match_sets st"
  shows "\<exists>st'. ADD_MARKER_SET_UPDATES st ups = Inr st' \<and> queues_match_sets st'"
  using assms
proof (induction ups arbitrary: st)
  case Nil
  then show ?case by simp
next
  case (Cons e ups)
  obtain k u where e: "e = (k, u)" by (cases e)
  from add_update_invariant [OF Cons.prems, of k u] obtain st1 where
    st1: "add_marker_set_update st (k, u) = Inr st1" "queues_match_sets st1"
    by blast
  from Cons.IH [OF st1(2)] st1(1) show ?case
    unfolding e by simp
qed

lemma SET_CURRENT_MAP_invariant:
  assumes "queues_match_sets st" and "SET_CURRENT_MAP st worldName mapName = Inr st'"
  shows "queues_match_sets st'"
  using assms
  by (auto simp add: SET_CURRENT_MAP_def Let_def queues_match_sets_def key_set_Nil
      split: if_splits)

lemma pop_keys:
  assumes "map_of m k = Some q"
  shows "key_set (AList.update k q' m) = key_set m"
proof -
  from assms have "k \<in> key_set m" by (auto simp add: key_set_dom)
  then show ?thesis by (auto simp add: key_set_update)
qed

lemma POP_MARKER_UPDATES_invariant:
  assumes "queues_match_sets st"
  shows "\<exists>st'. POP_MARKER_UPDATES st k amount = Inr st' \<and> queues_match_sets st'"
proof (cases "has (markerSets st) k")
  case True
  with assms have "has (pendingSetUpdates st) k"
    by (simp add: has_key_set queues_match_sets_def)
  then obtain q where q: "map_of (pendingSetUpdates st) k = Some q"
    by (auto simp add: has_def)
  with True assms show ?thesis
    by (simp add: POP_MARKER_UPDATES_def queues_match_sets_def pop_keys)
next
  case False
  with assms show ?thesis
    by (simp add: POP_MARKER_UPDATES_def queues_match_sets_def)
qed

lemma POP_AREA_UPDATES_invariant:
  assumes "queues_match_sets st"
  shows "\<exists>st'. POP_AREA_UPDATES st k amount = Inr st' \<and> queues_match_sets st'"
proof (cases "has (markerSets st) k")
  case True
  with assms have "has (pendingSetUpdates st) k"
    by (simp add: has_key_set queues_match_sets_def)
  then obtain q where q: "map_of (pendingSetUpdates st) k = Some q"
    by (auto simp add: has_def)
  with True assms show ?thesis
    by (simp add: POP_AREA_UPDATES_def queues_match_sets_def pop_keys)
next
  case False
  with assms show ?thesis
    by (simp add: POP_AREA_UPDATES_def queues_match_sets_def)
qed

lemma POP_CIRCLE_UPDATES_invariant:
  assumes "queues_match_sets st"
  shows "\<exists>st'. POP_CIRCLE_UPDATES st k amount = Inr st' \<and> queues_match_sets st'"
proof (cases "has (markerSets st) k")
  case True
  with assms have "has (pendingSetUpdates st) k"
    by (simp add: has_key_set queues_match_sets_def)
  then obtain q where q: "map_of (pendingSetUpdates st) k = Some q"
    by (auto simp add: has_def)
  with True assms show ?thesis
    by (simp add: POP_CIRCLE_UPDATES_def queues_match_sets_def pop_keys)
next
  case False
  with assms show ?thesis
    by (simp add: POP_CIRCLE_UPDATES_def queues_match_sets_def)
qed

lemma POP_LINE_UPDATES_invariant:
  assumes "queues_match_sets st"
  shows "\<exists>st'. POP_LINE_UPDATES st k amount = Inr st' \<and> queues_match_sets st'"
proof (cases "has (markerSets st) k")
  case True
  with assms have "has (pendingSetUpdates st) k"
    by (simp add: has_key_set queues_match_sets_def)
  then obtain q where q: "map_of (pendingSetUpdates st) k = Some q"
    by (auto simp add: has_def)
  with True assms show ?thesis
    by (simp add: POP_LINE_UPDATES_def queues_match_sets_def pop_keys)
next
  case False
  with assms show ?thesis
    by (simp add: POP_LINE_UPDATES_def queues_match_sets_def)
qed

lemma foldl_set_world_sets:
  "markerSets (foldl set_world s ws) = markerSets s
   \<and> pendingSetUpdates (foldl set_world s ws) = pendingSetUpdates s"
  by (induction ws arbitrary: s) (simp_all add: set_world_def)

lemma SET_WORLDS_sets:
  "markerSets (SET_WORLDS st ws) = markerSets st
   \<and> pendingSetUpdates (SET_WORLDS st ws) = pendingSetUpdates st"
  by (simp add: SET_WORLDS_def foldl_set_world_sets)

lemma reachable_invariant:
  assumes "reachable st"
  shows "queues_match_sets st"
  using assms
proof (induction rule: reachable.induct)
  case (initial_state now)
  show ?case by (simp add: queues_match_sets_def state_def key_set_def)
next
  case (set_worlds st new_worlds)
  then show ?case by (simp add: queues_match_sets_def SET_WORLDS_sets)
next
  case (set_marker_sets st sets)
  show ?case by (rule SET_MARKER_SETS_invariant)
next
  case (add_world st world)
  then show ?case by (simp add: queues_match_sets_def ADD_WORLD_def)
next
  case (set_update_timestamp st timestamp)
  then show ?case by (simp add: queues_match_sets_def SET_UPDATE_TIMESTAMP_def)
next
  case (add_marker_set_updates st ups st')
  from ADD_MARKER_SET_UPDATES_invariant [OF add_marker_set_updates.IH, of ups]
    add_marker_set_updates.hyps(2)
  show ?case by simp
next
  case (add_tile_updates st tile_updates)
  then show ?case by (simp add: queues_match_sets_def ADD_TILE_UPDATES_def)
next
  case (add_chat st chat)
  then show ?case by (simp add: queues_match_sets_def ADD_CHAT_def)
next
  case (pop_marker_updates st k amount st')
  from POP_MARKER_UPDATES_invariant [OF pop_marker_updates.IH, of k amount]
    pop_marker_updates.hyps(2)
  show ?case by simp
next
  case (pop_area_updates st k amount st')
  from POP_AREA_UPDATES_invariant [OF pop_area_updates.IH, of k amount]
    pop_area_updates.hyps(2)
  show ?case by simp
next
  case (pop_circle_updates st k amount st')
  from POP_CIRCLE_UPDATES_invariant [OF pop_circle_updates.IH, of k amount]
    pop_circle_updates.hyps(2)
  show ?case by simp
next
  case (pop_line_updates st k amount st')
  from POP_LINE_UPDATES_invariant [OF pop_line_updates.IH, of k amount]
    pop_line_updates.hyps(2)
  show ?case by simp
next
  case (pop_tile_updates st amount)
  then show ?case by (simp add: queues_match_sets_def POP_TILE_UPDATES_def)
next
  case (increment_request_id st)
  then show ?case by (simp add: queues_match_sets_def INCREMENT_REQUEST_ID_def)
next
  case (set_players_async st new_players)
  then show ?case by (simp add: queues_match_sets_def SET_PLAYERS_ASYNC_def Let_def)
next
  case (sync_players st keep)
  then show ?case by (simp add: queues_match_sets_def SYNC_PLAYERS_def)
next
  case (set_current_map st worldName mapName st')
  from SET_CURRENT_MAP_invariant [OF set_current_map.IH set_current_map.hyps(2)]
  show ?case .
qed

lemma sync_players_loop_filter:
  "sync_players_loop es keep registry =
   filter (\<lambda>(k, p). k \<notin> fst ` {(k', p') \<in> set es. account p' \<notin> keep}) registry"
proof (induction es arbitrary: registry)
  case Nil
  then show ?case by simp
next
  case (Cons e es)
  obtain key player where e: "e = (key, player)" by (cases e)
  show ?case
  proof (cases "account player \<in> keep")
    case True
    then have "{(k', p') \<in> set (e # es). account p' \<notin> keep}
      = {(k', p') \<in> set es. account p' \<notin> keep}"
      unfolding e by auto
    with True Cons [of registry] show ?thesis unfolding e by simp
  next
    case False
    then have "{(k', p') \<in> set (e # es). account p' \<notin> keep}
      = insert (key, player) {(k', p') \<in> set es. account p' \<notin> keep}"
      unfolding e by auto
    with False Cons [of "AList.delete key registry"] show ?thesis
      unfolding e by (simp add: AList.delete_eq case_prod_unfold) (rule filter_cong, auto)
  qed
qed

lemma sync_players_distinct:
  assumes "distinct (map fst registry)"
  shows "sync_players_loop registry keep registry =
    filter (\<lambda>(k, p). account p \<in> keep) registry"
proof -
  have "(k \<notin> fst ` {(k', p') \<in> set registry. account p' \<notin> keep}) = (account p \<in> keep)"
    if "(k, p) \<in> set registry" for k p
  proof
    assume "k \<notin> fst ` {(k', p') \<in> set registry. account p' \<notin> keep}"
    with that show "account p \<in> keep" by force
  next
    assume in_keep: "account p \<in> keep"
    show "k \<notin> fst ` {(k', p') \<in> set registry. account p' \<notin> keep}"
    proof
      assume "k \<in> fst ` {(k', p') \<in> set registry. account p' \<notin> keep}"
      then obtain p' where p': "(k, p') \<in> set registry" "account p' \<notin> keep" by auto
      from assms p'(1) that have "p' = p" by (rule eq_key_imp_eq_value)
      with p'(2) in_keep show False by simp
    qed
  qed
  then show ?thesis
    unfolding sync_players_loop_filter
    by (intro filter_cong) auto
qed

lemma fake_players_append:
  "i \<le> 150 \<Longrightarrow>
   fake_players ar random i ps = ps @ map (fake_player ar random) [i..<150]"
proof (induction ar random i ps rule: fake_players.induct)
  case (1 ar random i players)
  show ?case
  proof (cases "i < 150")
    case True
    with 1 have "fake_players ar random (i + 1) (players @ [fake_player ar random i]) =
      (players @ [fake_player ar random i]) @ map (fake_player ar random) [i + 1..<150]"
      by simp
    moreover from True have "[i..<150] = i # [i + 1..<150]"
      by (simp add: upt_conv_Cons)
    ultimately show ?thesis using True by (simp add: fake_players.simps [of ar random i])
  next
    case False
    with 1 have "i = 150" by simp
    then show ?thesis by (simp add: fake_players.simps [of ar random 150])
  qed
qed

lemma getUpdate_players_eq:
  "getUpdate_players ar random rs =
   map (response_to_player ar) rs @ map (fake_player ar random) [0..<150]"
  by (simp add: getUpdate_players_def fake_players_append)

lemma toString_values:
  "toString 0 = ''0''" "toString 9 = ''9''" "toString 10 = ''10''" "toString 99 = ''99''"
  "toString 100 = ''100''" "toString 149 = ''149''"
  by (simp_all add: toString.simps)

lemma toString_below_150:
  assumes "i < 150"
  shows "toString i =
    (if i < 10 then [''0123456789'' ! i]
     else if i < 100 then [''0123456789'' ! (i div 10), ''0123456789'' ! (i mod 10)]
     else [CHR ''1'', ''0123456789'' ! (i div 10 mod 10), ''0123456789'' ! (i mod 10)])"
proof -
  consider "i < 10" | "10 \<le> i" "i < 100" | "100 \<le> i"
    by linarith
  then show ?thesis
  proof cases
    case 1
    then show ?thesis by (simp add: toString.simps [of i])
  next
    case 2
    then have "i div 10 < 10" by simp
    with 2 show ?thesis
      by (simp add: toString.simps [of i] toString.simps [of "i div 10"])
  next
    case 3
    with assms have d: "i div 10 div 10 = 1" "\<not> i div 10 < 10" "\<not> i < 10" by simp_all
    have "toString (i div 10) = toString 1 @ [''0123456789'' ! (i div 10 mod 10)]"
      using d by (simp add: toString.simps [of "i div 10"])
    moreover have "toString (Suc 0) = ''1''"
      by (simp add: toString.simps [of "Suc 0"])
    ultimately show ?thesis using 3 d
      by (simp add: toString.simps [of i])
  qed
qed

lemma set_players_loop_take:
  "count < 10 \<Longrightarrow> set_players_loop count registry ps =
     (foldl set_player registry (take (10 - count) ps), drop (10 - count) ps)"
proof (induction ps arbitrary: count registry)
  case Nil
  then show ?case by simp
next
  case (Cons p ps)
  show ?case
  proof (cases "count + 1 \<ge> 10")
    case True
    with Cons.prems have "10 - count = Suc 0" by simp
    with True show ?thesis by (simp add: Let_def)
  next
    case False
    then have lt: "count + 1 < 10" by simp
    then have "10 - count = Suc (10 - (count + 1))" by simp
    with False Cons.IH [OF lt, of "set_player registry p"] show ?thesis
      by (simp add: Let_def)
  qed
qed

lemma SET_PLAYERS_ASYNC_take:
  "SET_PLAYERS_ASYNC st ps =
     (st\<lparr>players := foldl set_player (players st) (take 10 ps)\<rparr>, drop 10 ps)"
  by (simp add: SET_PLAYERS_ASYNC_def Let_def set_players_loop_take)

lemma update_fresh:
  "k \<notin> fst ` set m \<Longrightarrow> AList.update k v m = m @ [(k, v)]"
  by (induction m) auto

lemma set_player_fresh:
  assumes "account p \<notin> fst ` set registry"
  shows "set_player registry p = registry @ [(account p, p)]"
proof -
  from assms have "map_of registry (account p) = None"
    by (simp add: map_of_eq_None_iff)
  with assms show ?thesis
    by (simp add: set_player_def update_fresh)
qed

lemma foldl_set_player_fresh:
  assumes "distinct (map account ps)" and "account ` set ps \<inter> fst ` set registry = {}"
  shows "foldl set_player registry ps = registry @ map (\<lambda>p. (account p, p)) ps"
  using assms
proof (induction ps arbitrary: registry)
  case Nil
  then show ?case by simp
next
  case (Cons p ps)
  from Cons.prems(2) have fresh: "account p \<notin> fst ` set registry" by auto
  have "account ` set ps \<inter> fst ` set (registry @ [(account p, p)]) = {}"
    using Cons.prems by auto
  with Cons.IH [of "registry @ [(account p, p)]"] Cons.prems(1) set_player_fresh [OF fresh]
  show ?case by simp
qed

lemma map_of_accounts:
  assumes "distinct (map account ps)" and "p \<in> set ps"
  shows "map_of (map (\<lambda>p. (account p, p)) ps) (account p) = Some p"
  using assms
proof (induction ps)
  case Nil
  then show ?case by simp
next
  case (Cons q qs)
  show ?case
  proof (cases "p = q")
    case True
    then show ?thesis by simp
  next
    case False
    with Cons.prems have mem: "p \<in> set qs" by simp
    then have "account p \<in> account ` set qs" by (rule imageI)
    with Cons.prems(1) have "account q \<noteq> account p" by auto
    with Cons.IH mem Cons.prems(1) show ?thesis by simp
  qed
qed

lemma set_player_fields:
  "\<exists>e. map_of (set_player registry p) (account p) = Some e
     \<and> health e = health p \<and> armor e = armor p \<and> name e = name p
     \<and> sort_weight e = sort_weight p \<and> hidden e = hidden p
     \<and> pl_x (location e) = pl_x (location p) \<and> pl_y (location e) = pl_y (location p)
     \<and> pl_z (location e) = pl_z (location p)
     \<and> (pl_world (location e) = pl_world (location p) \<or> pl_world (location p) = None)"
  by (cases "map_of registry (account p)"; cases "pl_world (location p)")
    (simp_all add: set_player_def update_conv' assign_location_def)

lemma set_player_others:
  "k \<noteq> account p \<Longrightarrow> map_of (set_player registry p) k = map_of registry k"
  by (cases "map_of registry (account p)") (simp_all add: set_player_def update_conv')

lemma three_calls:
  assumes "length ps = 25" and "distinct (map account ps)" and "players st = []"
  shows "(let r1 = SET_PLAYERS_ASYNC st ps;
              r2 = SET_PLAYERS_ASYNC (fst r1) (snd r1);
              r3 = SET_PLAYERS_ASYNC (fst r2) (snd r2)
          in length (snd r1) = 15 \<and> length (snd r2) = 5 \<and> snd r3 = []
             \<and> length (players (fst r1)) = 10 \<and> length (players (fst r2)) = 20
             \<and> length (players (fst r3)) = 25
             \<and> players (fst r3) = map (\<lambda>p. (account p, p)) ps
             \<and> (\<forall>p \<in> set ps. map_of (players (fst r3)) (account p) = Some p))"
proof -
  have d1: "distinct (map account (take 10 ps))"
    using assms(2) by (simp add: take_map [symmetric] distinct_take)
  have d2: "distinct (map account (take 20 ps))"
    using assms(2) by (simp add: take_map [symmetric] distinct_take)
  have f1: "foldl set_player [] (take 10 ps) = map (\<lambda>p. (account p, p)) (take 10 ps)"
    using foldl_set_player_fresh [OF d1, of "[]"] by simp
  have "foldl set_player (foldl set_player [] (take 10 ps)) (take 10 (drop 10 ps))
    = foldl set_player [] (take 10 ps @ take 10 (drop 10 ps))"
    by simp
  also have "take 10 ps @ take 10 (drop 10 ps) = take 20 ps"
    using take_add [of 10 10 ps] by simp
  finally have f2: "foldl set_player (foldl set_player [] (take 10 ps)) (take 10 (drop 10 ps))
    = map (\<lambda>p. (account p, p)) (take 20 ps)"
    using foldl_set_player_fresh [OF d2, of "[]"] by simp
  have "take 20 ps @ take 10 (drop 20 ps) = ps"
    using assms(1) by simp
  then have "foldl set_player (foldl set_player [] (take 20 ps)) (take 10 (drop 20 ps))
    = foldl set_player [] ps"
    using foldl_append [of set_player "[]" "take 20 ps" "take 10 (drop 20 ps)"] by simp
  then have f3: "foldl set_player (map (\<lambda>p. (account p, p)) (take 20 ps)) (take 10 (drop 20 ps))
    = map (\<lambda>p. (account p, p)) ps"
    using foldl_set_player_fresh [OF d2, of "[]"] foldl_set_player_fresh [OF assms(2), of "[]"]
    by simp
  from assms(1,3) f1 f2 f3 map_of_accounts [OF assms(2)]
  show ?thesis
    by (simp add: SET_PLAYERS_ASYNC_take Let_def)
qed

lemma setupdated_with_ctype_creates_set:
  "\<exists>c st'. buildUpdates w [scenario_A\<lparr>e_ctype := Some ''markers''\<rparr>] = Inr c
     \<and> ADD_MARKER_SET_UPDATES (state now) (up_markerSets (updates c)) = Inr st'
     \<and> map_option s_label (map_of (markerSets st') ''s1'') = Some ''Unnamed set''"
proof -
  let ?e = "scenario_A\<lparr>e_ctype := Some ''markers''\<rparr>"
  let ?u = "empty_updates\<lparr>removed := Some False, payload := Some (buildMarkerSet ''s1'' ?e)\<rparr>"
  let ?c = "initial\<lparr>updates := \<lparr>up_markerSets = [(''s1'', ?u)], up_tiles = [],
    up_chat = []\<rparr>, accepted := 1\<rparr>"
  let ?st' = "(create_marker_set (state now) ''s1'' (buildMarkerSet ''s1'' ?e))\<lparr>
      markerSets := [(''s1'', update_marker_set
        (new_marker_set ''s1'' (buildMarkerSet ''s1'' ?e)) (?u\<lparr>payload := None\<rparr>))],
      pendingSetUpdates := [(''s1'', append_pending empty_pending (?u\<lparr>payload := None\<rparr>))]\<rparr>"
  have c: "buildUpdates w [?e] = Inr ?c"
    by (simp add: buildUpdates_def classify_def classify_component_def scenario_A_def
        empty_entry_def component_update_def js_defs initial_def Let_def)
  have "add_marker_set_update (state now) (''s1'', ?u) =
    add_marker_set_update (create_marker_set (state now) ''s1'' (buildMarkerSet ''s1'' ?e))
      (''s1'', ?u\<lparr>payload := None\<rparr>)"
    by (rule add_update_created) (simp_all add: state_def has_def)
  also have "\<dots> = Inr ?st'"
    by (simp add: add_update_existing [of _ _ "new_marker_set ''s1'' (buildMarkerSet ''s1'' ?e)"
          empty_pending] create_marker_set_def state_def truthy_bool_def empty_updates_def)
  finally have "ADD_MARKER_SET_UPDATES (state now) [(''s1'', ?u)] = Inr ?st'"
    by simp
  moreover have "map_option s_label (map_of (markerSets ?st') ''s1'') = Some ''Unnamed set''"
    by (simp add: update_marker_set_def new_marker_set_def buildMarkerSet_def
        scenario_A_def empty_entry_def str_or_def truthy_str_def)
  ultimately have "ADD_MARKER_SET_UPDATES (state now) (up_markerSets (updates ?c)) = Inr ?st'
    \<and> map_option s_label (map_of (markerSets ?st') ''s1'') = Some ''Unnamed set''"
    by simp
  with c show ?thesis by blast
qed

section \<open>The claims\<close>

text \<open>
  Claim C1: the classifier never raises an error, whatever the records lack; in particular
  for a component record that passes the stale and id checks and has no \<open>msg\<close>.  The
  code does raise there: for the batch of the single record
  \<open>{type: 'component', id: 'm1', timestamp: 100}\<close> and the watermark 50,
  \<open>entry.msg.startsWith\<close> throws a \<open>TypeError\<close>, no counter is incremented and
  \<open>buildUpdates\<close> returns no result.
\<close>

theorem component_without_msg_throws: "buildUpdates 50
     [empty_entry\<lparr>e_type := Some ''component'', e_id := Some ''m1'', e_timestamp := Some (TNumber 100)\<rparr>]
   = Inl TypeError"
  by (simp add: buildUpdates_def classify_def classify_component_def empty_entry_def js_defs)

text \<open>
  Claim C2, as stated, fails: a chat record with the timestamp 40, below the watermark 50,
  and without a message is counted under \<open>incomplete\<close>, and the \<open>stale\<close> counter
  stays as it was.
\<close>

theorem stale_chat_without_message_is_incomplete: "classify 50 initial (empty_entry\<lparr>e_type := Some ''chat'', e_timestamp := Some (TNumber 40)\<rparr>)
    = Inr (drop_incomplete initial)
  \<and> stale (dropped (drop_incomplete initial)) = stale (dropped initial)
  \<and> incomplete (dropped (drop_incomplete initial)) = incomplete (dropped initial) + 1"
  by (simp add: classify_def classify_chat_def empty_entry_def js_defs drop_defs)

text \<open>
  Claim C2, amended: a record of one of the four types whose timestamp is strictly below a
  non-zero watermark leaves the delta buckets, the tile list and the chat list as they
  are and increments exactly one drop counter by one: \<open>stale\<close> when the record is a
  component or has its required fields, \<open>incomplete\<close> otherwise.
\<close>

theorem record_below_watermark_dropped:
  assumes "lastUpdate \<noteq> 0" and "e_timestamp entry' = Some (TNumber t)" and "t < lastUpdate"
    and "e_type entry' \<in> {Some ''component'', Some ''chat'', Some ''playerjoin'',
      Some ''playerquit'', Some ''tile''}"
  shows "classify lastUpdate c entry' =
      Inr (if required_fields entry' then drop_stale c else drop_incomplete c)
    \<and> updates (drop_stale c) = updates c \<and> updates (drop_incomplete c) = updates c
    \<and> dropped (drop_stale c) = (dropped c)\<lparr>stale := stale (dropped c) + 1\<rparr>
    \<and> dropped (drop_incomplete c) = (dropped c)\<lparr>incomplete := incomplete (dropped c) + 1\<rparr>"
proof -
  have "classify lastUpdate c entry' =
      Inr (if required_fields entry' then drop_stale c else drop_incomplete c)"
    using assms(4) unfolding classify_def required_fields_def
    by (auto simp add: below_watermark [OF assms(2,3)])
  then show ?thesis by (simp add: drop_defs)
qed

theorem record_below_watermark_dropped_witness:
  "(50::number) \<noteq> 0 \<and> (40::number) < 50
   \<and> classify 50 initial
        (empty_entry\<lparr>e_type := Some ''tile'', e_name := Some ''t1'', e_timestamp := Some (TNumber 40)\<rparr>)
      = Inr (drop_stale initial)
   \<and> stale (dropped (drop_stale initial)) = 1"
  using record_below_watermark_dropped [of 50 "empty_entry\<lparr>e_type := Some ''tile'', e_name := Some ''t1'',
    e_timestamp := Some (TNumber 40)\<rparr>" 40 initial]
  by (simp add: empty_entry_def required_fields_def truthy_str_def truthy_ts_def
      drop_stale_def initial_def)

text \<open>
  Claim C3, as stated, fails in one point: the record of scenario A is not dropped with
  an anomaly log.  It has no \<open>ctype\<close>, so the classifier counts it under
  \<open>unknownCType\<close> and builds no bucket; reconciliation then has nothing to do and the
  console of the store stays empty.
\<close>

theorem scenario_A_logs_no_anomaly:
  "buildUpdates 50 [scenario_A] = Inr (drop_unknownCType initial)
   \<and> unknownCType (dropped (drop_unknownCType initial)) = 1
   \<and> ADD_MARKER_SET_UPDATES (state 50) (up_markerSets (updates (drop_unknownCType initial)))
       = Inr (state 50)
   \<and> console (state 50) = []"
  by (simp add: scenario_A_classified drop_unknownCType_def initial_def state_def)

text \<open>
  Claim C3, amended: for every watermark the record of scenario A is dropped by the
  classifier under \<open>unknownCType\<close>, no bucket is built, and reconciling the result
  leaves the store as it is, so \<open>s1\<close> is not created.  In reconciliation, a bucket
  without a set payload for a set that does not exist is skipped with a warning, and
  after a whole pass in which every bucket of such a set \<open>k\<close> has no set payload the
  set \<open>k\<close> still does not exist: no set is made from entity deltas alone.
\<close>

theorem scenario_A_set_never_created:
  assumes "ADD_MARKER_SET_UPDATES st ups = Inr st'"
    and "\<not> has (markerSets st) k"
    and "\<forall>u. (k, u) \<in> set ups \<longrightarrow> payload u = None"
  shows "buildUpdates w [scenario_A] = Inr (drop_unknownCType initial)
    \<and> up_markerSets (updates (drop_unknownCType initial)) = []
    \<and> ADD_MARKER_SET_UPDATES st (up_markerSets (updates (drop_unknownCType initial))) = Inr st
    \<and> \<not> has (markerSets st') k
    \<and> (\<forall>u. payload u = None \<longrightarrow> add_marker_set_update st (k, u) =
          Inr (st\<lparr>console := console st @ [missing_set_warning k]\<rparr>))"
proof -
  have "up_markerSets (updates (drop_unknownCType initial)) = []"
    by (simp add: drop_unknownCType_def initial_def)
  with scenario_A_classified no_set_from_entity_deltas [OF assms]
    add_update_missing_set [OF assms(2)]
  show ?thesis by simp
qed

theorem scenario_A_set_never_created_witness:
  "ADD_MARKER_SET_UPDATES (state 0)
     [(''s1'', empty_updates\<lparr>markerUpdates :=
        [\<lparr>u_id = ''m1'', u_removed = True, u_payload = None\<rparr>]\<rparr>)]
     = Inr ((state 0)\<lparr>console := [missing_set_warning ''s1'']\<rparr>)
   \<and> \<not> has (markerSets (state 0)) ''s1''
   \<and> \<not> has (markerSets ((state 0)\<lparr>console := [missing_set_warning ''s1'']\<rparr>)) ''s1''"
proof -
  let ?ups = "[(''s1'', empty_updates\<lparr>markerUpdates :=
        [\<lparr>u_id = ''m1'', u_removed = True, u_payload = None :: DynmapMarker option\<rparr>]\<rparr>)]"
  have h1: "ADD_MARKER_SET_UPDATES (state 0) ?ups
     = Inr ((state 0)\<lparr>console := [missing_set_warning ''s1'']\<rparr>)"
    by (simp add: add_marker_set_update_def state_def has_def empty_updates_def)
  have h2: "\<not> has (markerSets (state 0)) ''s1''"
    by (simp add: state_def has_def)
  have h3: "\<forall>u. (''s1'', u) \<in> set ?ups \<longrightarrow> payload u = None"
    by (simp add: empty_updates_def)
  from scenario_A_set_never_created [OF h1 h2 h3] h1 h2 show ?thesis by simp
qed

text \<open>
  Claim C4: when every record of a batch has a timestamp strictly below the non-zero
  watermark of the store, classification returns empty delta buckets, an empty tile list
  and an empty chat list, accepts nothing, and the three mutations that apply them
  (\<open>ADD_MARKER_SET_UPDATES\<close>, \<open>ADD_TILE_UPDATES\<close>, \<open>ADD_CHAT\<close>) return the store
  unchanged: marker sets, entity maps, pending queues, pending tiles and chat history.
\<close>

theorem redelivered_batch_mutates_nothing:
  assumes "updateTimestamp st \<noteq> 0"
    and "\<forall>e \<in> set data. \<exists>t. e_timestamp e = Some (TNumber t) \<and> t < updateTimestamp st"
  shows "\<exists>c. buildUpdates (updateTimestamp st) data = Inr c
    \<and> up_markerSets (updates c) = [] \<and> up_tiles (updates c) = [] \<and> up_chat (updates c) = []
    \<and> accepted c = 0
    \<and> ADD_MARKER_SET_UPDATES st (up_markerSets (updates c)) = Inr st
    \<and> ADD_TILE_UPDATES st (up_tiles (updates c)) = st
    \<and> ADD_CHAT st (up_chat (updates c)) = st"
proof -
  from classify_all_below_watermark [OF assms(2), of initial] obtain c' where
    c': "classify_all (updateTimestamp st) initial data = Inr c'"
      "updates c' = updates initial" "accepted c' = accepted initial"
    by blast
  then show ?thesis
    by (simp add: buildUpdates_def initial_def ADD_TILE_UPDATES_def ADD_CHAT_def)
qed

theorem redelivered_batch_mutates_nothing_witness:
  "updateTimestamp (state 50) \<noteq> 0
   \<and> (\<exists>c. buildUpdates (updateTimestamp (state 50))
        [empty_entry\<lparr>e_type := Some ''chat'', e_timestamp := Some (TNumber 40)\<rparr>,
         empty_entry\<lparr>e_type := Some ''component'', e_timestamp := Some (TNumber 10)\<rparr>] = Inr c
      \<and> ADD_MARKER_SET_UPDATES (state 50) (up_markerSets (updates c)) = Inr (state 50)
      \<and> ADD_TILE_UPDATES (state 50) (up_tiles (updates c)) = state 50
      \<and> ADD_CHAT (state 50) (up_chat (updates c)) = state 50)"
proof -
  let ?data = "[empty_entry\<lparr>e_type := Some ''chat'', e_timestamp := Some (TNumber 40)\<rparr>,
         empty_entry\<lparr>e_type := Some ''component'', e_timestamp := Some (TNumber 10)\<rparr>]"
  have h1: "updateTimestamp (state 50) \<noteq> 0" by (simp add: state_def)
  have h2: "\<forall>e \<in> set ?data. \<exists>t. e_timestamp e = Some (TNumber t) \<and> t < updateTimestamp (state 50)"
    by (simp add: state_def)
  from redelivered_batch_mutates_nothing [OF h1 h2] h1 show ?thesis by blast
qed

text \<open>
  Claim C5: a call of \<open>SET_PLAYERS_ASYNC\<close> merges the first ten snapshots of its input
  (all of them when there are fewer) into the registry, in order, and returns the rest.
  Merging a snapshot puts under its account an entry with the snapshot's health, armor,
  name, sort weight, hidden flag and coordinates (and its world, when the snapshot's
  location has one), and leaves every other key alone.  For 25 snapshots with distinct
  accounts and an empty registry, three calls leave 15, 5 and 0 snapshots, and the
  registry ends with exactly the 25 snapshots, each under its account.
\<close>

theorem merge_batch_ten_at_a_time:
  assumes "length ps = 25" and "distinct (map account ps)" and "players st0 = []"
  shows "SET_PLAYERS_ASYNC st new_players =
      (st\<lparr>players := foldl set_player (players st) (take 10 new_players)\<rparr>,
       drop 10 new_players)
    \<and> length (take 10 new_players) \<le> 10
    \<and> (\<exists>e. map_of (set_player registry p) (account p) = Some e
         \<and> health e = health p \<and> armor e = armor p \<and> name e = name p
         \<and> sort_weight e = sort_weight p \<and> hidden e = hidden p
         \<and> pl_x (location e) = pl_x (location p) \<and> pl_y (location e) = pl_y (location p)
         \<and> pl_z (location e) = pl_z (location p)
         \<and> (pl_world (location e) = pl_world (location p) \<or> pl_world (location p) = None))
    \<and> (\<forall>k. k \<noteq> account p \<longrightarrow> map_of (set_player registry p) k = map_of registry k)
    \<and> (let r1 = SET_PLAYERS_ASYNC st0 ps;
             r2 = SET_PLAYERS_ASYNC (fst r1) (snd r1);
             r3 = SET_PLAYERS_ASYNC (fst r2) (snd r2)
         in length (snd r1) = 15 \<and> length (snd r2) = 5 \<and> snd r3 = []
            \<and> length (players (fst r1)) = 10 \<and> length (players (fst r2)) = 20
            \<and> length (players (fst r3)) = 25
            \<and> players (fst r3) = map (\<lambda>p. (account p, p)) ps
            \<and> (\<forall>p \<in> set ps. map_of (players (fst r3)) (account p) = Some p))"
  using SET_PLAYERS_ASYNC_take [of st new_players] set_player_fields [of registry p]
    set_player_others [of _ p registry] three_calls [OF assms]
  by simp

theorem merge_batch_ten_at_a_time_witness:
  "length example_players = 25 \<and> distinct (map account example_players)
   \<and> players (state 0) = []
   \<and> (let r1 = SET_PLAYERS_ASYNC (state 0) example_players;
            r2 = SET_PLAYERS_ASYNC (fst r1) (snd r1);
            r3 = SET_PLAYERS_ASYNC (fst r2) (snd r2)
        in length (snd r1) = 15 \<and> length (snd r2) = 5 \<and> snd r3 = []
           \<and> length (players (fst r1)) = 10 \<and> length (players (fst r2)) = 20
           \<and> length (players (fst r3)) = 25
           \<and> players (fst r3) = map (\<lambda>p. (account p, p)) example_players
           \<and> (\<forall>p \<in> set example_players. map_of (players (fst r3)) (account p) = Some p))"
proof -
  have h1: "length example_players = 25" by (simp add: example_players_def)
  have h2: "distinct (map account example_players)"
    by (simp add: example_players_def)
  have h3: "players (state 0) = []" by (simp add: state_def)
  from merge_batch_ten_at_a_time [OF h1 h2 h3] h1 h2 h3 show ?thesis by blast
qed

text \<open>
  Claim C6: when the bucket of an existing set \<open>k\<close> marks it as removed, the step of
  \<open>ADD_MARKER_SET_UPDATES\<close> for this bucket deletes the set (with its entity maps) and
  its pending queue and changes nothing else, so no entity update of the bucket is
  applied or queued; neither map has the key \<open>k\<close> afterwards, and also not at the end
  of a whole pass over buckets with distinct keys.
\<close>

theorem removed_set_deleted_with_queue:
  assumes "has (markerSets st) k" and "truthy_bool (removed u)"
  shows "add_marker_set_update st (k, u) =
      Inr (st\<lparr>markerSets := AList.delete k (markerSets st),
              pendingSetUpdates := AList.delete k (pendingSetUpdates st)\<rparr>)
    \<and> \<not> has (AList.delete k (markerSets st)) k
    \<and> \<not> has (AList.delete k (pendingSetUpdates st)) k
    \<and> (\<forall>ups st'. ADD_MARKER_SET_UPDATES st ups = Inr st' \<and> distinct (map fst ups)
          \<and> (k, u) \<in> set ups
        \<longrightarrow> \<not> has (markerSets st') k \<and> \<not> has (pendingSetUpdates st') k)"
proof -
  have "\<forall>ups st'. ADD_MARKER_SET_UPDATES st ups = Inr st' \<and> distinct (map fst ups)
          \<and> (k, u) \<in> set ups
        \<longrightarrow> \<not> has (markerSets st') k \<and> \<not> has (pendingSetUpdates st') k"
    using removed_set_stays_deleted [OF _ _ _ assms(2,1)] by blast
  with add_update_removed [OF assms] show ?thesis
    by (simp add: has_delete)
qed

theorem removed_set_deleted_with_queue_witness:
  "has (markerSets (create_marker_set (state 0) ''s1'' (buildMarkerSet ''s1'' empty_entry))) ''s1''
   \<and> truthy_bool (removed (empty_updates\<lparr>removed := Some True\<rparr>))
   \<and> add_marker_set_update
        (create_marker_set (state 0) ''s1'' (buildMarkerSet ''s1'' empty_entry))
        (''s1'', empty_updates\<lparr>removed := Some True\<rparr>) = Inr (state 0)
   \<and> ADD_MARKER_SET_UPDATES
        (create_marker_set (state 0) ''s1'' (buildMarkerSet ''s1'' empty_entry))
        [(''s1'', empty_updates\<lparr>removed := Some True\<rparr>)] = Inr (state 0)
   \<and> \<not> has (markerSets (state 0)) ''s1'' \<and> \<not> has (pendingSetUpdates (state 0)) ''s1''"
proof -
  let ?st = "create_marker_set (state 0) ''s1'' (buildMarkerSet ''s1'' empty_entry)"
  let ?u = "empty_updates\<lparr>removed := Some True\<rparr>"
  have h1: "has (markerSets ?st) ''s1''"
    by (simp add: create_marker_set_def has_update)
  have h2: "truthy_bool (removed ?u)"
    by (simp add: truthy_bool_def)
  from removed_set_deleted_with_queue [OF h1 h2]
  have step: "add_marker_set_update ?st (''s1'', ?u) = Inr (state 0)"
    by (simp add: create_marker_set_def state_def)
  then have pass: "ADD_MARKER_SET_UPDATES ?st [(''s1'', ?u)] = Inr (state 0)"
    by simp
  from removed_set_deleted_with_queue [OF h1 h2]
  have "ADD_MARKER_SET_UPDATES ?st ups = Inr st' \<Longrightarrow> distinct (map fst ups) \<Longrightarrow>
      (''s1'', ?u) \<in> set ups \<Longrightarrow>
      \<not> has (markerSets st') ''s1'' \<and> \<not> has (pendingSetUpdates st') ''s1''" for ups st'
    by blast
  from this [OF pass]
  have "\<not> has (markerSets (state 0)) ''s1'' \<and> \<not> has (pendingSetUpdates (state 0)) ''s1''"
    by simp
  with h1 h2 step pass show ?thesis by blast
qed

text \<open>
  Claim C7: \<open>SYNC_PLAYERS\<close> keeps, in order and unchanged, exactly the entries of the
  registry whose account is in the keep-set and deletes the others; nothing else of the
  state changes.  The keys of the registry, a \<open>Map\<close>, are distinct.
\<close>

theorem prune_removes_exactly_absent_accounts:
  assumes "distinct (map fst (players st))"
  shows "SYNC_PLAYERS st keep = st\<lparr>players := filter (\<lambda>(k, p). account p \<in> keep) (players st)\<rparr>
    \<and> (\<forall>k p. map_of (players st) k = Some p \<longrightarrow>
          map_of (players (SYNC_PLAYERS st keep)) k =
            (if account p \<in> keep then Some p else None))
    \<and> (\<forall>k. map_of (players st) k = None \<longrightarrow> map_of (players (SYNC_PLAYERS st keep)) k = None)"
proof -
  have eq: "SYNC_PLAYERS st keep =
      st\<lparr>players := filter (\<lambda>(k, p). account p \<in> keep) (players st)\<rparr>"
    by (simp add: SYNC_PLAYERS_def sync_players_distinct [OF assms])
  have kept: "map_of (filter (\<lambda>(k, p). account p \<in> keep) (players st)) k =
      (if account p \<in> keep then Some p else None)"
    if "map_of (players st) k = Some p" for k p
  proof (cases "account p \<in> keep")
    case True
    from that have "(k, p) \<in> set (players st)" by (rule map_of_SomeD)
    with True have "(k, p) \<in> set (filter (\<lambda>(k, p). account p \<in> keep) (players st))" by simp
    moreover from assms have "distinct (map fst (filter (\<lambda>(k, p). account p \<in> keep) (players st)))"
      by (rule distinct_map_filter)
    ultimately show ?thesis using True by simp
  next
    case False
    have "k \<notin> fst ` set (filter (\<lambda>(k, p). account p \<in> keep) (players st))"
    proof
      assume "k \<in> fst ` set (filter (\<lambda>(k, p). account p \<in> keep) (players st))"
      then obtain p' where p': "(k, p') \<in> set (players st)" "account p' \<in> keep" by auto
      from that have "(k, p) \<in> set (players st)" by (rule map_of_SomeD)
      with assms p'(1) have "p' = p" by (rule eq_key_imp_eq_value)
      with p'(2) False show False by simp
    qed
    with False show ?thesis by (simp add: map_of_eq_None_iff)
  qed
  have absent: "map_of (filter (\<lambda>(k, p). account p \<in> keep) (players st)) k = None"
    if "map_of (players st) k = None" for k
  proof -
    from that have "k \<notin> fst ` set (players st)" by (simp add: map_of_eq_None_iff)
    then have "k \<notin> fst ` set (filter (\<lambda>(k, p). account p \<in> keep) (players st))" by auto
    then show ?thesis by (simp add: map_of_eq_None_iff)
  qed
  from eq kept absent show ?thesis by simp
qed

theorem prune_removes_exactly_absent_accounts_witness:
  "distinct (map fst (players ((state 0)\<lparr>players := [
      (''a'', \<lparr>account = ''a'', health = 20, armor = 0, name = ''A'', sort_weight = 0,
         hidden = None, location = \<lparr>pl_x = 0, pl_y = 64, pl_z = 0, pl_world = None\<rparr>\<rparr>),
      (''b'', \<lparr>account = ''b'', health = 10, armor = 5, name = ''B'', sort_weight = 1,
         hidden = None, location = \<lparr>pl_x = 1, pl_y = 64, pl_z = 1, pl_world = None\<rparr>\<rparr>)]\<rparr>)))
   \<and> players (SYNC_PLAYERS ((state 0)\<lparr>players := [
      (''a'', \<lparr>account = ''a'', health = 20, armor = 0, name = ''A'', sort_weight = 0,
         hidden = None, location = \<lparr>pl_x = 0, pl_y = 64, pl_z = 0, pl_world = None\<rparr>\<rparr>),
      (''b'', \<lparr>account = ''b'', health = 10, armor = 5, name = ''B'', sort_weight = 1,
         hidden = None, location = \<lparr>pl_x = 1, pl_y = 64, pl_z = 1, pl_world = None\<rparr>\<rparr>)]\<rparr>) {''a''})
     = [(''a'', \<lparr>account = ''a'', health = 20, armor = 0, name = ''A'', sort_weight = 0,
         hidden = None, location = \<lparr>pl_x = 0, pl_y = 64, pl_z = 0, pl_world = None\<rparr>\<rparr>)]"
proof -
  let ?st = "(state 0)\<lparr>players := [
      (''a'', \<lparr>account = ''a'', health = 20, armor = 0, name = ''A'', sort_weight = 0,
         hidden = None, location = \<lparr>pl_x = 0, pl_y = 64, pl_z = 0, pl_world = None\<rparr>\<rparr>),
      (''b'', \<lparr>account = ''b'', health = 10, armor = 5, name = ''B'', sort_weight = 1,
         hidden = None, location = \<lparr>pl_x = 1, pl_y = 64, pl_z = 1, pl_world = None\<rparr>\<rparr>)]\<rparr>"
  have h: "distinct (map fst (players ?st))" by simp
  from prune_removes_exactly_absent_accounts [OF h, of "{''a''}"] h show ?thesis by simp
qed

text \<open>
  Claim C8, as stated, fails: it speaks of every input batch, and the checks of the
  classifier accept a chat record whose timestamp is the string \<open>"x"\<close>.  The comparator
  is then \<open>NaN\<close> for this event, and for the three chat records with the timestamps
  \<open>100\<close>, \<open>"x"\<close> and \<open>200\<close> (watermark 50) the returned chat list is in the order
  \<open>100\<close>, \<open>"x"\<close>, \<open>200\<close>: the older event comes before the newer one.
\<close>

theorem non_numeric_timestamp_breaks_order:
  "buildUpdates 50 unordered_batch = Inr unordered_result
   \<and> map ch_timestamp (up_chat (updates unordered_result)) =
       [Some (TNumber 100), Some (NonNumeric ''x''), Some (TNumber 200)]
   \<and> \<not> sorted_wrt newer_or_same (up_chat (updates unordered_result))"
  by (simp add: buildUpdates_def unordered_batch_def unordered_result_def chat_at_def
      chat_event_at_def classify_def classify_chat_def empty_entry_def js_defs initial_def
      chat_order_def compare_value_def newer_or_same_def)

text \<open>
  Claim C8, amended: in every result of \<open>buildUpdates\<close> the chat list holds exactly the
  events that the records of the batch contribute; when the timestamp of every accepted
  event is a number, the list is sorted by timestamp, newest first, and the events of any
  one timestamp are in their order of arrival.
\<close>

theorem chat_sorted_newest_first_stable:
  assumes "buildUpdates lastUpdate data = Inr c"
  shows "set (up_chat (updates c)) = set (concat (map (chat_events lastUpdate) data))
    \<and> length (up_chat (updates c)) = length (concat (map (chat_events lastUpdate) data))
    \<and> ((\<forall>x \<in> set (concat (map (chat_events lastUpdate) data)). numeric_timestamp x)
        \<longrightarrow> sorted_wrt newer_or_same (up_chat (updates c))
          \<and> (\<forall>t. filter (\<lambda>x. ch_timestamp x = Some t) (up_chat (updates c)) =
                filter (\<lambda>x. ch_timestamp x = Some t)
                  (concat (map (chat_events lastUpdate) data))))"
proof -
  from assms obtain c0 where c0: "classify_all lastUpdate initial data = Inr c0"
    and c: "c = c0\<lparr>updates := (updates c0)\<lparr>up_chat :=
        js_sort chat_order (up_chat (updates c0))\<rparr>\<rparr>"
    by (auto simp add: buildUpdates_def split: sum.splits)
  from classify_all_chat_append [OF c0]
  have pre: "up_chat (updates c0) = concat (map (chat_events lastUpdate) data)"
    by (simp add: initial_def)
  have sorted: "sorted_wrt newer_or_same (up_chat (updates c))"
    if "\<forall>x \<in> set (concat (map (chat_events lastUpdate) data)). numeric_timestamp x"
    using sorted_js_sort [of "up_chat (updates c0)"] that c pre by simp
  have stable: "\<forall>t. filter (\<lambda>x. ch_timestamp x = Some t) (up_chat (updates c)) =
          filter (\<lambda>x. ch_timestamp x = Some t) (concat (map (chat_events lastUpdate) data))"
    using c pre by (simp add: filter_js_sort)
  have sets: "set (up_chat (updates c)) = set (concat (map (chat_events lastUpdate) data))"
    using c pre by (simp add: set_js_sort)
  have len: "length (up_chat (updates c)) = length (concat (map (chat_events lastUpdate) data))"
    using c pre by (simp add: length_js_sort)
  from sorted stable sets len show ?thesis by blast
qed

theorem chat_sorted_newest_first_stable_witness:
  "\<exists>c. buildUpdates 50 example_batch = Inr c
     \<and> (\<forall>x \<in> set (concat (map (chat_events 50) example_batch)). numeric_timestamp x)
     \<and> sorted_wrt newer_or_same (up_chat (updates c))
     \<and> map ch_timestamp (up_chat (updates c)) =
         [Some (TNumber 200), Some (TNumber 100), Some (TNumber 100)]
     \<and> map ch_type (up_chat (updates c)) = [''chat'', ''chat'', ''playerjoin'']"
proof -
  let ?c = "initial\<lparr>updates := \<lparr>up_markerSets = [], up_tiles = [], up_chat = [
    \<lparr>ch_type = ''chat'', ch_source = Some ''web'', ch_playerAccount = None,
      ch_playerName = None, ch_message = Some ''b'', ch_timestamp = Some (TNumber 200),
      ch_channel = None\<rparr>,
    \<lparr>ch_type = ''chat'', ch_source = Some ''player'', ch_playerAccount = None,
      ch_playerName = None, ch_message = Some ''a'', ch_timestamp = Some (TNumber 100),
      ch_channel = None\<rparr>,
    \<lparr>ch_type = ''playerjoin'', ch_source = None, ch_playerAccount = Some ''c'',
      ch_playerName = Some [], ch_message = None, ch_timestamp = Some (TNumber 100),
      ch_channel = None\<rparr>]\<rparr>\<rparr>"
  have h: "buildUpdates 50 example_batch = Inr ?c"
    by (simp add: buildUpdates_def example_batch_def classify_def classify_chat_def
        classify_playerjoin_def empty_entry_def js_defs initial_def chat_order_def
        compare_value_def)
  have n: "\<forall>x \<in> set (concat (map (chat_events 50) example_batch)). numeric_timestamp x"
    by (simp add: chat_events_def example_batch_def classify_def classify_chat_def
        classify_playerjoin_def empty_entry_def js_defs initial_def numeric_timestamp_def)
  from chat_sorted_newest_first_stable [OF h] n h show ?thesis by simp
qed

text \<open>
  Claim C9: in every state of the store the pending queues and the marker sets have the
  same keys.  \<open>SET_MARKER_SETS\<close> establishes this, \<open>ADD_MARKER_SET_UPDATES\<close> and
  \<open>SET_CURRENT_MAP\<close> preserve it, and \<open>ADD_MARKER_SET_UPDATES\<close> and the four pop
  mutations never fail on the lookup of a pending queue.
\<close>

theorem pending_queues_match_marker_sets:
  assumes "reachable st"
  shows "key_set (pendingSetUpdates st) = key_set (markerSets st)
    \<and> (\<forall>k. has (pendingSetUpdates st) k = has (markerSets st) k)
    \<and> queues_match_sets (SET_MARKER_SETS st sets)
    \<and> (\<exists>st'. ADD_MARKER_SET_UPDATES st ups = Inr st' \<and> queues_match_sets st')
    \<and> (\<forall>st'. SET_CURRENT_MAP st worldName mapName = Inr st' \<longrightarrow> queues_match_sets st')
    \<and> (\<exists>st'. POP_MARKER_UPDATES st k amount = Inr st' \<and> queues_match_sets st')
    \<and> (\<exists>st'. POP_AREA_UPDATES st k amount = Inr st' \<and> queues_match_sets st')
    \<and> (\<exists>st'. POP_CIRCLE_UPDATES st k amount = Inr st' \<and> queues_match_sets st')
    \<and> (\<exists>st'. POP_LINE_UPDATES st k amount = Inr st' \<and> queues_match_sets st')"
proof -
  from reachable_invariant [OF assms] have inv: "queues_match_sets st" .
  then have keys: "key_set (pendingSetUpdates st) = key_set (markerSets st)"
    by (simp add: queues_match_sets_def)
  then have "\<forall>k. has (pendingSetUpdates st) k = has (markerSets st) k"
    by (simp add: has_key_set)
  with keys SET_MARKER_SETS_invariant [of st sets]
    ADD_MARKER_SET_UPDATES_invariant [OF inv, of ups]
    SET_CURRENT_MAP_invariant [OF inv, of worldName mapName]
    POP_MARKER_UPDATES_invariant [OF inv, of k amount]
    POP_AREA_UPDATES_invariant [OF inv, of k amount]
    POP_CIRCLE_UPDATES_invariant [OF inv, of k amount]
    POP_LINE_UPDATES_invariant [OF inv, of k amount]
  show ?thesis by blast
qed

theorem pending_queues_match_marker_sets_witness:
  "reachable (SET_MARKER_SETS (state 0)
       [(''s1'', new_marker_set ''s1'' (buildMarkerSet ''s1'' empty_entry))])
   \<and> key_set (pendingSetUpdates (SET_MARKER_SETS (state 0)
       [(''s1'', new_marker_set ''s1'' (buildMarkerSet ''s1'' empty_entry))])) = {''s1''}
   \<and> key_set (markerSets (SET_MARKER_SETS (state 0)
       [(''s1'', new_marker_set ''s1'' (buildMarkerSet ''s1'' empty_entry))])) = {''s1''}"
proof -
  let ?st = "SET_MARKER_SETS (state 0)
       [(''s1'', new_marker_set ''s1'' (buildMarkerSet ''s1'' empty_entry))]"
  have r: "reachable ?st"
    by (intro reachable.set_marker_sets reachable.initial_state)
  have k: "key_set (markerSets ?st) = {''s1''}"
    by (simp add: SET_MARKER_SETS_def key_set_def)
  from pending_queues_match_marker_sets [OF r] r k show ?thesis by simp
qed

text \<open>
  Claim C10: the players that \<open>getUpdate\<close> returns are the players of the response, in
  order and each with the fields that the code gives it, followed by 150 fake players, so
  the set has 150 players more than the response.  The fake player of index \<open>i\<close> has the
  account and the name \<open>VIDEO GAMES i\<close> (from \<open>VIDEO GAMES 0\<close> to \<open>VIDEO GAMES 149\<close>),
  health and armor \<open>Math.round(Math.random() * 10)\<close>, the coordinates
  \<open>Math.round(Math.random() * 1000) - 500\<close>, \<open>64\<close> and
  \<open>Math.round(Math.random() * 1000) - 500\<close> from four calls of \<open>Math.random\<close> in this
  order, the sort weight \<open>0\<close>, the world \<open>world\<close> and no \<open>hidden\<close> property; the
  digits of \<open>i\<close> are given in full.
\<close>

theorem getUpdate_adds_150_fake_players:
  "length (getUpdate_players ar random rs) = length rs + 150
   \<and> (\<forall>j < length rs. getUpdate_players ar random rs ! j =
        (let player = rs ! j;
             no_world = (r_world player = None \<or> r_world player = Some []
               \<or> r_world player = Some ''-some-other-bogus-world-'')
         in \<lparr>account = (case r_account player of None \<Rightarrow> [] | Some a \<Rightarrow> a),
             health = (case r_health player of None \<Rightarrow> 0 | Some h \<Rightarrow> h),
             armor = (case r_armor player of None \<Rightarrow> 0 | Some a \<Rightarrow> a),
             name = (case r_name player of None \<Rightarrow> [] | Some n \<Rightarrow> n),
             sort_weight = (case r_sort player of None \<Rightarrow> 0 | Some s \<Rightarrow> s),
             hidden = Some no_world,
             location = \<lparr>
               pl_x = (case r_x player of None \<Rightarrow> 0 | Some x \<Rightarrow> plus_d ar x (1 / 2)),
               pl_y = (case r_y player of None \<Rightarrow> 0 | Some y \<Rightarrow> y),
               pl_z = (case r_z player of None \<Rightarrow> 0 | Some z \<Rightarrow> plus_d ar z (1 / 2)),
               pl_world = Some (if no_world then None else r_world player)\<rparr>\<rparr>))
   \<and> (\<forall>i < 150. getUpdate_players ar random rs ! (length rs + i) =
        \<lparr>account = ''VIDEO GAMES '' @ toString i,
          health = of_int \<lfloor>times_d ar (random (4 * i)) 10 + 1 / 2\<rfloor>,
          armor = of_int \<lfloor>times_d ar (random (4 * i + 1)) 10 + 1 / 2\<rfloor>,
          name = ''VIDEO GAMES '' @ toString i,
          sort_weight = 0,
          hidden = None,
          location = \<lparr>
            pl_x = minus_d ar (of_int \<lfloor>times_d ar (random (4 * i + 2)) 1000 + 1 / 2\<rfloor>) 500,
            pl_y = 64,
            pl_z = minus_d ar (of_int \<lfloor>times_d ar (random (4 * i + 3)) 1000 + 1 / 2\<rfloor>) 500,
            pl_world = Some (Some ''world'')\<rparr>\<rparr>
        \<and> toString i =
          (if i < 10 then [''0123456789'' ! i]
           else if i < 100 then [''0123456789'' ! (i div 10), ''0123456789'' ! (i mod 10)]
           else [CHR ''1'', ''0123456789'' ! (i div 10 mod 10), ''0123456789'' ! (i mod 10)]))
   \<and> toString 0 = ''0'' \<and> toString 9 = ''9'' \<and> toString 10 = ''10''
   \<and> toString 99 = ''99'' \<and> toString 100 = ''100'' \<and> toString 149 = ''149''"
proof -
  have reported: "getUpdate_players ar random rs ! j =
        (let player = rs ! j;
             no_world = (r_world player = None \<or> r_world player = Some []
               \<or> r_world player = Some ''-some-other-bogus-world-'')
         in \<lparr>account = (case r_account player of None \<Rightarrow> [] | Some a \<Rightarrow> a),
             health = (case r_health player of None \<Rightarrow> 0 | Some h \<Rightarrow> h),
             armor = (case r_armor player of None \<Rightarrow> 0 | Some a \<Rightarrow> a),
             name = (case r_name player of None \<Rightarrow> [] | Some n \<Rightarrow> n),
             sort_weight = (case r_sort player of None \<Rightarrow> 0 | Some s \<Rightarrow> s),
             hidden = Some no_world,
             location = \<lparr>
               pl_x = (case r_x player of None \<Rightarrow> 0 | Some x \<Rightarrow> plus_d ar x (1 / 2)),
               pl_y = (case r_y player of None \<Rightarrow> 0 | Some y \<Rightarrow> y),
               pl_z = (case r_z player of None \<Rightarrow> 0 | Some z \<Rightarrow> plus_d ar z (1 / 2)),
               pl_world = Some (if no_world then None else r_world player)\<rparr>\<rparr>)"
    if "j < length rs" for j
  proof -
    from that have "getUpdate_players ar random rs ! j = response_to_player ar (rs ! j)"
      by (simp add: getUpdate_players_eq nth_append)
    then show ?thesis
      by (auto simp add: response_to_player_def Let_def str_or_def num_or_def truthy_str_def
          truthy_num_def split: option.splits)
  qed
  have fake: "getUpdate_players ar random rs ! (length rs + i) = fake_player ar random i"
    if "i < 150" for i
    using that by (simp add: getUpdate_players_eq nth_append)
  have len: "length (getUpdate_players ar random rs) = length rs + 150"
    by (simp add: getUpdate_players_eq)
  from reported fake len toString_values toString_below_150 show ?thesis
    by (simp add: fake_player_def Math_round_def)
qed

theorem getUpdate_adds_150_fake_players_witness:
  "(0::nat) < length [\<lparr>r_account = Some ''steve'', r_health = Some 20, r_armor = None,
       r_name = Some ''Steve'', r_sort = None, r_world = Some ''world'', r_x = Some 1,
       r_y = Some 70, r_z = Some (- 3)\<rparr>]
   \<and> (149::nat) < 150
   \<and> getUpdate_players exact_arithmetic (\<lambda>k. 1 / 2)
        [\<lparr>r_account = Some ''steve'', r_health = Some 20, r_armor = None,
          r_name = Some ''Steve'', r_sort = None, r_world = Some ''world'', r_x = Some 1,
          r_y = Some 70, r_z = Some (- 3)\<rparr>] ! 0 =
       \<lparr>account = ''steve'', health = 20, armor = 0, name = ''Steve'', sort_weight = 0,
         hidden = Some False,
         location = \<lparr>pl_x = 3 / 2, pl_y = 70, pl_z = - 5 / 2,
           pl_world = Some (Some ''world'')\<rparr>\<rparr>
   \<and> getUpdate_players exact_arithmetic (\<lambda>k. 1 / 2)
        [\<lparr>r_account = Some ''steve'', r_health = Some 20, r_armor = None,
          r_name = Some ''Steve'', r_sort = None, r_world = Some ''world'', r_x = Some 1,
          r_y = Some 70, r_z = Some (- 3)\<rparr>] ! 150 =
       \<lparr>account = ''VIDEO GAMES 149'', health = 5, armor = 5, name = ''VIDEO GAMES 149'',
         sort_weight = 0, hidden = None,
         location = \<lparr>pl_x = 0, pl_y = 64, pl_z = 0, pl_world = Some (Some ''world'')\<rparr>\<rparr>"
proof -
  let ?rs = "[\<lparr>r_account = Some ''steve'', r_health = Some 20, r_armor = None,
       r_name = Some ''Steve'', r_sort = None, r_world = Some ''world'', r_x = Some 1,
       r_y = Some 70, r_z = Some (- 3)\<rparr>]"
  note c = getUpdate_adds_150_fake_players [of exact_arithmetic "\<lambda>k. 1 / 2" ?rs]
  have first: "getUpdate_players exact_arithmetic (\<lambda>k. 1 / 2) ?rs ! 0 =
       \<lparr>account = ''steve'', health = 20, armor = 0, name = ''Steve'', sort_weight = 0,
         hidden = Some False,
         location = \<lparr>pl_x = 3 / 2, pl_y = 70, pl_z = - 5 / 2,
           pl_world = Some (Some ''world'')\<rparr>\<rparr>"
    using c [THEN conjunct2, THEN conjunct1, rule_format, of 0]
    by (simp add: exact_arithmetic_def Let_def)
  have last: "getUpdate_players exact_arithmetic (\<lambda>k. 1 / 2) ?rs ! 150 =
       \<lparr>account = ''VIDEO GAMES 149'', health = 5, armor = 5, name = ''VIDEO GAMES 149'',
         sort_weight = 0, hidden = None,
         location = \<lparr>pl_x = 0, pl_y = 64, pl_z = 0, pl_world = Some (Some ''world'')\<rparr>\<rparr>"
    using c [THEN conjunct2, THEN conjunct2, THEN conjunct1, rule_format, of 149]
    by (simp add: exact_arithmetic_def toString_values)
  from first last show ?thesis by simp
qed


end
